theory Spec2Isabelle
  imports Main "HOL-Library.AList"
begin

section \<open>Data model of server.js\<close>

text \<open>
  The server keeps three process-wide tables (\<open>lobbies\<close>, \<open>gameStates\<close>,
  \<open>disconnectedPlayers\<close>) and the image catalog \<open>gameImages\<close>. Lobbies and game
  states are plain JavaScript objects. Objects used as dictionaries (\<open>votes\<close>,
  \<open>scores\<close>) are modelled as maps over their own properties; property names that a
  fresh object inherits from \<open>Object.prototype\<close> (such as \<open>__proto__\<close> or
  \<open>constructor\<close>) are not modelled, so usernames are taken to differ from them.
\<close>

record participant =
  username :: string
  isHost :: bool
  connected :: bool

record lobby =
  code :: string
  host :: string
  participants :: "participant list"
  createdAt :: int
  gameStarted :: bool

record vote_counts =
  overrated :: nat
  fairlyRated :: nat
  underrated :: nat

text \<open>A score is a JavaScript number; \<open>undefined + 1\<close> is \<open>NaN\<close>.\<close>

datatype jsnum = Num int | NaN

record gameState =
  phase :: string
  roundNumber :: int
  totalRounds :: int
  currentImage :: "string option"
  votes :: "string \<rightharpoonup> string"
  scores :: "string \<rightharpoonup> jsnum"
  usedImages :: "int list"
  timer :: int
  timerInterval :: "nat option"
  voteResults :: vote_counts

text \<open>
  A socket carries the two fields the handlers attach to it (\<open>socket.username\<close> and
  \<open>socket.lobbyCode\<close>, both \<open>undefined\<close> until \<open>join-lobby\<close>).
\<close>

record socket =
  sock_username :: "string option"
  sock_lobbyCode :: "string option"

text \<open>
  The closures handed to \<open>setTimeout\<close> and \<open>setInterval\<close>. All of them look the
  session up by lobby code when they run, except the inner closure of
  \<open>showScoreboard\<close> and the tick of \<open>startTimer\<close>, which keep the \<open>gameState\<close>
  object they were created with; that object is a reference into \<open>heap\<close>.
\<close>

datatype callback =
    CbStartDiscussionPhase string
  | CbStartVotingPhase string
  | CbCalculateResults string
  | CbShowScoreboard string
  | CbAdvanceRound nat string
  | CbSyncGameState nat string

record interval =
  iv_gameState :: nat
  iv_code :: string
  iv_callback :: callback

datatype target = Room string | ToSocket nat

datatype message =
    LobbyUpdated lobby
  | LobbyClosed
  | GameStarted lobby gameState
  | ImageSelected "string option"
  | GamePhaseUpdate string "int option"
  | GameTimer int
  | RoundResults vote_counts "string option" "string option"
  | ScoreboardUpdate "string \<rightharpoonup> jsnum"
  | GameEnded "string \<rightharpoonup> jsnum"
  | ErrorMessage string
  | SyncGameState string int "string option" int "string \<rightharpoonup> jsnum" vote_counts
      lobby "string option"

datatype response =
    BadRequest string
  | NotFound string
  | LobbyCreated string lobby
  | LobbyJoined lobby bool

text \<open>
  \<open>gameStates\<close> maps a lobby code to the reference of its \<open>gameState\<close> object;
  \<open>start-game\<close> allocates a new object, \<open>restart-game\<close> mutates the existing
  one. \<open>disconnectedPlayers\<close> is a JavaScript \<open>Map\<close> that is iterated, so it is an
  association list in insertion order. \<open>timeouts\<close> are the pending \<open>setTimeout\<close>
  calls with their delay in milliseconds; the code keeps no handle to them. \<open>intervals\<close>
  are the live \<open>setInterval\<close> timers by handle. \<open>emitted\<close> is the log of
  everything sent through socket.io, oldest first.
\<close>

record server =
  lobbies :: "string \<rightharpoonup> lobby"
  gameStates :: "string \<rightharpoonup> nat"
  heap :: "nat \<rightharpoonup> gameState"
  nextRef :: nat
  disconnectedPlayers :: "(string \<times> (string \<times> int)) list"
  gameImages :: "string list"
  sockets :: "nat \<rightharpoonup> socket"
  timeouts :: "(nat \<times> callback) list"
  intervals :: "nat \<rightharpoonup> interval"
  nextHandle :: nat
  emitted :: "(target \<times> message) list"

definition initialServer :: server where
  "initialServer =
     \<lparr>lobbies = Map.empty, gameStates = Map.empty, heap = Map.empty, nextRef = 0,
      disconnectedPlayers = [], gameImages = [], sockets = Map.empty, timeouts = [],
      intervals = Map.empty, nextHandle = 0, emitted = []\<rparr>"

section \<open>Primitives\<close>

text \<open>JavaScript truthiness of a string: only the empty string is falsy.\<close>

definition truthy :: "string \<Rightarrow> bool" where
  "truthy str = (str \<noteq> [])"

definition emit :: "target \<Rightarrow> message \<Rightarrow> server \<Rightarrow> server" where
  "emit t m s = s\<lparr>emitted := emitted s @ [(t, m)]\<rparr>"

definition setTimeout :: "callback \<Rightarrow> nat \<Rightarrow> server \<Rightarrow> server" where
  "setTimeout cb ms s = s\<lparr>timeouts := timeouts s @ [(ms, cb)]\<rparr>"

text \<open>\<open>if (gameState.timerInterval) clearInterval(gameState.timerInterval)\<close>\<close>

definition clearInterval :: "nat option \<Rightarrow> server \<Rightarrow> server" where
  "clearInterval h s =
     (case h of None \<Rightarrow> s | Some i \<Rightarrow> s\<lparr>intervals := (intervals s)(i := None)\<rparr>)"

text \<open>\<open>gameStates.get(code)\<close>: the reference and the object it points to.\<close>

definition getGameState :: "server \<Rightarrow> string \<Rightarrow> (nat \<times> gameState) option" where
  "getGameState s c =
     (case gameStates s c of
        None \<Rightarrow> None
      | Some r \<Rightarrow> (case heap s r of None \<Rightarrow> None | Some g \<Rightarrow> Some (r, g)))"

definition setObject :: "nat \<Rightarrow> gameState \<Rightarrow> server \<Rightarrow> server" where
  "setObject r g s = s\<lparr>heap := (heap s)(r \<mapsto> g)\<rparr>"

text \<open>\<open>participants.find(p => p.username === username)\<close>\<close>

definition findParticipant :: "participant list \<Rightarrow> string \<Rightarrow> participant option" where
  "findParticipant ps u = find (\<lambda>p. username p = u) ps"

text \<open>Assigning \<open>connected\<close> on the participant that \<open>find\<close> returned (the first match).\<close>

fun setConnected :: "string \<Rightarrow> bool \<Rightarrow> participant list \<Rightarrow> participant list" where
  "setConnected u b [] = []"
| "setConnected u b (p # ps) =
     (if username p = u then p\<lparr>connected := b\<rparr> # ps else p # setConnected u b ps)"

text \<open>\<open>participants.filter(p => p.username !== username)\<close>\<close>

definition removeParticipant :: "string \<Rightarrow> participant list \<Rightarrow> participant list" where
  "removeParticipant u ps = filter (\<lambda>p. username p \<noteq> u) ps"

section \<open>Game logic functions\<close>

text \<open>
  \<open>startTimer(code, seconds, callback)\<close>: cancels the interval the session holds and
  registers a new one that ticks every second.
\<close>

definition startTimer :: "string \<Rightarrow> int \<Rightarrow> callback \<Rightarrow> server \<Rightarrow> server" where
  "startTimer c seconds cb s =
     (case getGameState s c of
        None \<Rightarrow> s
      | Some (r, g) \<Rightarrow>
          let s1 = clearInterval (timerInterval g) s;
              h = nextHandle s1
          in s1\<lparr>heap := (heap s1)(r \<mapsto> g\<lparr>timer := seconds, timerInterval := Some h\<rparr>),
                 intervals := (intervals s1)(h \<mapsto>
                    \<lparr>iv_gameState = r, iv_code = c, iv_callback = cb\<rparr>),
                 nextHandle := Suc h\<rparr>)"

text \<open>\<open>endGame(code)\<close>: cancels the interval and broadcasts the final scores. The phase
  is not touched.\<close>

definition endGame :: "string \<Rightarrow> server \<Rightarrow> server" where
  "endGame c s =
     (case getGameState s c of
        None \<Rightarrow> s
      | Some (r, g) \<Rightarrow>
          emit (Room c) (GameEnded (scores g)) (clearInterval (timerInterval g) s))"

text \<open>\<open>gameImages.filter((image, index) => !gameState.usedImages.includes(index))\<close>\<close>

definition availableImages :: "string list \<Rightarrow> int list \<Rightarrow> string list" where
  "availableImages imgs used =
     map snd (filter (\<lambda>(index, img). int index \<notin> set used) (enumerate 0 imgs))"

text \<open>\<open>Array.prototype.indexOf\<close>: the first position of the element, or \<open>-1\<close>.\<close>

fun indexOf :: "'a list \<Rightarrow> 'a \<Rightarrow> int" where
  "indexOf [] x = - 1"
| "indexOf (y # ys) x =
     (if y = x then 0 else (let i = indexOf ys x in if i < 0 then - 1 else i + 1))"

text \<open>Reading \<open>array[i]\<close>: \<open>undefined\<close> out of range.\<close>

definition element :: "'a list \<Rightarrow> nat \<Rightarrow> 'a option" where
  "element xs i = (if i < length xs then Some (xs ! i) else None)"

text \<open>
  \<open>startDiscussionPhase(code)\<close>. \<open>randomIndex\<close> is the value of
  \<open>Math.floor(Math.random() * availableImages.length)\<close>, the only nondeterminism of the
  function; \<open>Math.random()\<close> lies in \<open>[0, 1)\<close>, so the code only ever sees
  \<open>randomIndex < availableImages.length\<close>.
\<close>

definition startDiscussionPhase :: "nat \<Rightarrow> string \<Rightarrow> server \<Rightarrow> server" where
  "startDiscussionPhase randomIndex c s =
     (case getGameState s c of
        None \<Rightarrow> s
      | Some (r, g) \<Rightarrow>
          (case lobbies s c of
             None \<Rightarrow> s
           | Some l \<Rightarrow>
               let avail = availableImages (gameImages s) (usedImages g) in
               if length avail = 0 \<or> roundNumber g > totalRounds g then endGame c s
               else
                 let selectedImage = element avail randomIndex;
                     originalIndex =
                       (case selectedImage of
                          None \<Rightarrow> - 1
                        | Some img \<Rightarrow> indexOf (gameImages s) img);
                     g1 = g\<lparr>currentImage := selectedImage,
                            usedImages := usedImages g @ [originalIndex],
                            phase := ''discussion'',
                            votes := Map.empty,
                            timer := 60\<rparr>;
                     s1 = clearInterval (timerInterval g1) (setObject r g1 s);
                     s2 = emit (Room c) (ImageSelected selectedImage) s1;
                     s3 = emit (Room c)
                            (GamePhaseUpdate ''discussion'' (Some (roundNumber g1))) s2
                 in startTimer c 60 (CbStartVotingPhase c) s3))"

definition startVotingPhase :: "string \<Rightarrow> server \<Rightarrow> server" where
  "startVotingPhase c s =
     (case getGameState s c of
        None \<Rightarrow> s
      | Some (r, g) \<Rightarrow>
          let s1 = setObject r (g\<lparr>phase := ''voting'', timer := 30\<rparr>) s;
              s2 = emit (Room c) (GamePhaseUpdate ''voting'' None) s1
          in startTimer c 30 (CbCalculateResults c) s2)"

subsection \<open>Tally, majority and scoring\<close>

text \<open>The body of the first \<open>forEach\<close> of \<open>calculateResults\<close>.\<close>

definition countVote :: "(string \<rightharpoonup> string) \<Rightarrow> vote_counts \<Rightarrow> participant \<Rightarrow> vote_counts" where
  "countVote vs vr p =
     (if connected p then
        (let v = vs (username p) in
         if v = Some ''overrated'' then vr\<lparr>overrated := overrated vr + 1\<rparr>
         else if v = Some ''fairlyRated'' then vr\<lparr>fairlyRated := fairlyRated vr + 1\<rparr>
         else if v = Some ''underrated'' then vr\<lparr>underrated := underrated vr + 1\<rparr>
         else vr)
      else vr)"

definition countVotes :: "participant list \<Rightarrow> (string \<rightharpoonup> string) \<Rightarrow> vote_counts" where
  "countVotes ps vs =
     foldl (countVote vs) \<lparr>overrated = 0, fairlyRated = 0, underrated = 0\<rparr> ps"

text \<open>\<open>Object.entries(voteResults)\<close>, in the order the literal lists its keys.\<close>

definition entries :: "vote_counts \<Rightarrow> (string \<times> nat) list" where
  "entries vr =
     [(''overrated'', overrated vr), (''fairlyRated'', fairlyRated vr),
      (''underrated'', underrated vr)]"

text \<open>The body of the second \<open>forEach\<close>, on the pair \<open>(majorityOption, maxVotes)\<close>.\<close>

fun majorityStep :: "string option \<times> nat \<Rightarrow> string \<times> nat \<Rightarrow> string option \<times> nat" where
  "majorityStep (majorityOption, maxVotes) (opt, n) =
     (if n > maxVotes then (Some opt, n)
      else if n = maxVotes \<and> n > 0 then (None, maxVotes)
      else (majorityOption, maxVotes))"

definition determineMajority :: "vote_counts \<Rightarrow> string option" where
  "determineMajority vr = fst (foldl majorityStep (None, 0) (entries vr))"

text \<open>\<open>gameState.scores[participant.username] += 1\<close>\<close>

fun increment :: "jsnum option \<Rightarrow> jsnum" where
  "increment (Some (Num n)) = Num (n + 1)"
| "increment (Some NaN) = NaN"
| "increment None = NaN"

definition awardPoint ::
  "string \<Rightarrow> (string \<rightharpoonup> string) \<Rightarrow> (string \<rightharpoonup> jsnum) \<Rightarrow> participant \<Rightarrow> (string \<rightharpoonup> jsnum)" where
  "awardPoint m vs sc p =
     (if vs (username p) = Some m then sc(username p \<mapsto> increment (sc (username p)))
      else sc)"

definition awardPoints ::
  "string option \<Rightarrow> (string \<rightharpoonup> string) \<Rightarrow> participant list \<Rightarrow> (string \<rightharpoonup> jsnum)
     \<Rightarrow> (string \<rightharpoonup> jsnum)" where
  "awardPoints majorityOption vs ps sc =
     (case majorityOption of
        None \<Rightarrow> sc
      | Some m \<Rightarrow> if truthy m then foldl (awardPoint m vs) sc ps else sc)"

definition calculateResults :: "string \<Rightarrow> server \<Rightarrow> server" where
  "calculateResults c s =
     (case getGameState s c of
        None \<Rightarrow> s
      | Some (r, g) \<Rightarrow>
          (case lobbies s c of
             None \<Rightarrow> s
           | Some l \<Rightarrow>
               let vr = countVotes (participants l) (votes g);
                   majorityOption = determineMajority vr;
                   g1 = g\<lparr>voteResults := vr,
                          scores := awardPoints majorityOption (votes g) (participants l)
                                      (scores g),
                          phase := ''results''\<rparr>;
                   s1 = setObject r g1 s;
                   s2 = emit (Room c) (GamePhaseUpdate ''results'' None) s1;
                   s3 = emit (Room c)
                          (RoundResults vr majorityOption (currentImage g1)) s2
               in setTimeout (CbShowScoreboard c) 5000 s3))"

definition showScoreboard :: "string \<Rightarrow> server \<Rightarrow> server" where
  "showScoreboard c s =
     (case getGameState s c of
        None \<Rightarrow> s
      | Some (r, g) \<Rightarrow>
          let g1 = g\<lparr>phase := ''scoreboard''\<rparr>;
              s1 = setObject r g1 s;
              s2 = emit (Room c) (GamePhaseUpdate ''scoreboard'' None) s1;
              s3 = emit (Room c) (ScoreboardUpdate (scores g1)) s2
          in setTimeout (CbAdvanceRound r c) 5000 s3)"

text \<open>
  The closure \<open>showScoreboard\<close> schedules. It works on the \<open>gameState\<close> object that
  \<open>showScoreboard\<close> fetched (reference \<open>r\<close>), while \<open>endGame\<close> and the next
  \<open>startDiscussionPhase\<close> look the code up again.
\<close>

definition advanceRound :: "nat \<Rightarrow> string \<Rightarrow> server \<Rightarrow> server" where
  "advanceRound r c s =
     (case heap s r of
        None \<Rightarrow> s
      | Some g \<Rightarrow>
          let g1 = g\<lparr>roundNumber := roundNumber g + 1\<rparr>;
              s1 = setObject r g1 s
          in if roundNumber g1 > totalRounds g1
                \<or> length (usedImages g1) \<ge> length (gameImages s1)
             then endGame c s1
             else
               let s2 = setObject r (g1\<lparr>phase := ''waiting''\<rparr>) s1;
                   s3 = emit (Room c) (GamePhaseUpdate ''waiting'' None) s2
               in setTimeout (CbStartDiscussionPhase c) 3000 s3)"

text \<open>\<open>syncGameStateToPlayer(socketId, code)\<close>; a property read with the key
  \<open>undefined\<close> reads the property named \<open>undefined\<close>.\<close>

definition syncGameStateToPlayer :: "nat \<Rightarrow> string \<Rightarrow> server \<Rightarrow> server" where
  "syncGameStateToPlayer sid c s =
     (case getGameState s c of
        None \<Rightarrow> s
      | Some (r, g) \<Rightarrow>
          (case lobbies s c of
             None \<Rightarrow> s
           | Some l \<Rightarrow>
               (case sockets s sid of
                  None \<Rightarrow> s
                | Some sock \<Rightarrow>
                    emit (ToSocket sid)
                      (SyncGameState (phase g) (roundNumber g) (currentImage g) (timer g)
                         (scores g) (voteResults g) l
                         (votes g (case sock_username sock of
                                     None \<Rightarrow> ''undefined'' | Some u \<Rightarrow> u))) s)))"

text \<open>Running a scheduled closure.\<close>

definition runCallback :: "nat \<Rightarrow> callback \<Rightarrow> server \<Rightarrow> server" where
  "runCallback randomIndex cb s =
     (case cb of
        CbStartDiscussionPhase c \<Rightarrow> startDiscussionPhase randomIndex c s
      | CbStartVotingPhase c \<Rightarrow> startVotingPhase c s
      | CbCalculateResults c \<Rightarrow> calculateResults c s
      | CbShowScoreboard c \<Rightarrow> showScoreboard c s
      | CbAdvanceRound r c \<Rightarrow> advanceRound r c s
      | CbSyncGameState sid c \<Rightarrow> syncGameStateToPlayer sid c s)"

text \<open>One tick of the interval \<open>startTimer\<close> registered under handle \<open>h\<close>.\<close>

definition intervalTick :: "nat \<Rightarrow> nat \<Rightarrow> server \<Rightarrow> server" where
  "intervalTick randomIndex h s =
     (case intervals s h of
        None \<Rightarrow> s
      | Some iv \<Rightarrow>
          (case heap s (iv_gameState iv) of
             None \<Rightarrow> s
           | Some g \<Rightarrow>
               let g1 = g\<lparr>timer := timer g - 1\<rparr>;
                   s1 = emit (Room (iv_code iv)) (GameTimer (timer g1))
                          (setObject (iv_gameState iv) g1 s)
               in if timer g1 \<le> 0 then
                    let s2 = clearInterval (timerInterval g1) s1;
                        s3 = setObject (iv_gameState iv) (g1\<lparr>timerInterval := None\<rparr>) s2
                    in runCallback randomIndex (iv_callback iv) s3
                  else s1))"

section \<open>The lobby directory routes\<close>

definition upperChar :: "char \<Rightarrow> char" where
  "upperChar ch =
     (case map_of (zip ''abcdefghijklmnopqrstuvwxyz'' ''ABCDEFGHIJKLMNOPQRSTUVWXYZ'') ch of
        None \<Rightarrow> ch
      | Some up \<Rightarrow> up)"

text \<open>
  \<open>generateLobbyCode()\<close>. The argument is the string \<open>Math.random().toString(36)\<close>
  (\<open>0.\<close> followed by base-36 digits); \<open>substr(2, 6)\<close> keeps at most six characters from
  position 2. Nothing is compared with the codes already in \<open>lobbies\<close>.
\<close>

definition generateLobbyCode :: "string \<Rightarrow> string" where
  "generateLobbyCode random36 = map upperChar (take 6 (drop 2 random36))"

text \<open>
  \<open>POST /api/lobby/create\<close>. \<open>u\<close> is \<open>req.body.username\<close> (\<open>None\<close> when the field
  is absent), \<open>now\<close> the creation time.
\<close>

definition createLobby :: "string \<Rightarrow> int \<Rightarrow> string option \<Rightarrow> server \<Rightarrow> response \<times> server" where
  "createLobby random36 now u s =
     (case u of
        None \<Rightarrow> (BadRequest ''Username must be at least 2 characters'', s)
      | Some name \<Rightarrow>
          if \<not> truthy name \<or> length name < 2
          then (BadRequest ''Username must be at least 2 characters'', s)
          else
            let c = generateLobbyCode random36;
                l = \<lparr>code = c, host = name,
                     participants = [\<lparr>username = name, isHost = True, connected = True\<rparr>],
                     createdAt = now, gameStarted = False\<rparr>
            in (LobbyCreated c l, s\<lparr>lobbies := (lobbies s)(c \<mapsto> l)\<rparr>))"

text \<open>\<open>POST /api/lobby/join\<close>; an absent field fails the same test as an empty string.\<close>

definition joinLobby :: "string \<Rightarrow> string \<Rightarrow> server \<Rightarrow> response \<times> server" where
  "joinLobby c u s =
     (if \<not> truthy c \<or> \<not> truthy u then (BadRequest ''Code and username are required'', s)
      else
        (case lobbies s c of
           None \<Rightarrow> (NotFound ''Lobby not found'', s)
         | Some l \<Rightarrow>
             (case findParticipant (participants l) u of
                Some existingParticipant \<Rightarrow>
                  let l1 = l\<lparr>participants := setConnected u True (participants l)\<rparr>
                  in (LobbyJoined l1 True, s\<lparr>lobbies := (lobbies s)(c \<mapsto> l1)\<rparr>)
              | None \<Rightarrow>
                  let l1 = l\<lparr>participants := participants l @
                              [\<lparr>username = u, isHost = False, connected = True\<rparr>]\<rparr>;
                      s1 = s\<lparr>lobbies := (lobbies s)(c \<mapsto> l1)\<rparr>;
                      s2 = (case getGameState s1 c of
                              None \<Rightarrow> s1
                            | Some (r, g) \<Rightarrow>
                                setObject r (g\<lparr>scores := (scores g)(u \<mapsto> Num 0)\<rparr>) s1)
                  in (LobbyJoined l1 False, s2))))"

section \<open>The image catalog\<close>

definition lowerChar :: "char \<Rightarrow> char" where
  "lowerChar ch =
     (case map_of (zip ''ABCDEFGHIJKLMNOPQRSTUVWXYZ'' ''abcdefghijklmnopqrstuvwxyz'') ch of
        None \<Rightarrow> ch
      | Some low \<Rightarrow> low)"

text \<open>
  \<open>path.extname\<close> of a directory entry (a name without separators): the part from the
  last dot on, empty when there is no dot, when the only dot leads the name, and for
  the name \<open>..\<close>.
\<close>

definition extname :: "string \<Rightarrow> string" where
  "extname file =
     (let suffix = takeWhile (\<lambda>ch. ch \<noteq> CHR ''.'') (rev file) in
      if length suffix = length file \<or> Suc (length suffix) = length file \<or> file = ''..''
      then []
      else drop (length file - Suc (length suffix)) file)"

text \<open>
  \<open>loadImages()\<close>; the argument is what \<open>fs.readdirSync(imagesDir)\<close> returns, or
  \<open>None\<close> when it throws.
\<close>

definition loadImages :: "string list option \<Rightarrow> server \<Rightarrow> server" where
  "loadImages files s =
     (case files of
        None \<Rightarrow> s\<lparr>gameImages := []\<rparr>
      | Some fs \<Rightarrow>
          s\<lparr>gameImages :=
               map (\<lambda>file. ''/images/'' @ file)
                 (filter (\<lambda>file. map lowerChar (extname file)
                                   \<in> set [''.jpg'', ''.jpeg'', ''.png'', ''.gif'', ''.webp''])
                    fs)\<rparr>)"

section \<open>Socket handlers\<close>

definition connection :: "nat \<Rightarrow> server \<Rightarrow> server" where
  "connection sid s =
     s\<lparr>sockets := (sockets s)(sid \<mapsto> \<lparr>sock_username = None, sock_lobbyCode = None\<rparr>)\<rparr>"

definition onJoinLobby :: "nat \<Rightarrow> string \<Rightarrow> string \<Rightarrow> server \<Rightarrow> server" where
  "onJoinLobby sid c u s =
     (let s0 = s\<lparr>sockets := (sockets s)(sid \<mapsto>
                    \<lparr>sock_username = Some u, sock_lobbyCode = Some c\<rparr>)\<rparr>
      in case lobbies s0 c of
           None \<Rightarrow> s0
         | Some l \<Rightarrow>
             let l1 = l\<lparr>participants := setConnected u True (participants l)\<rparr>;
                 s1 = s0\<lparr>lobbies := (lobbies s0)(c \<mapsto> l1)\<rparr>;
                 s2 = (case getGameState s1 c of
                         None \<Rightarrow> s1
                       | Some (r, g) \<Rightarrow>
                           if phase g \<noteq> ''waiting''
                           then setTimeout (CbSyncGameState sid c) 1000 s1
                           else s1)
             in emit (Room c) (LobbyUpdated l1) s2)"

text \<open>
  The test \<open>gameState && gameState.phase !== 'waiting'\<close> that both \<open>leave-lobby\<close> and
  \<open>disconnect\<close> use to tell an active session.
\<close>

definition sessionActive :: "server \<Rightarrow> string \<Rightarrow> bool" where
  "sessionActive s c =
     (case getGameState s c of None \<Rightarrow> False | Some (r, g) \<Rightarrow> phase g \<noteq> ''waiting'')"

definition onLeaveLobby :: "int \<Rightarrow> string \<Rightarrow> string \<Rightarrow> server \<Rightarrow> server" where
  "onLeaveLobby now c u s =
     (case lobbies s c of
        None \<Rightarrow> s
      | Some l \<Rightarrow>
          if sessionActive s c then
            (case findParticipant (participants l) u of
               None \<Rightarrow> emit (Room c) (LobbyUpdated l) s
             | Some participant \<Rightarrow>
                 let l1 = l\<lparr>participants := setConnected u False (participants l)\<rparr>;
                     s1 = s\<lparr>lobbies := (lobbies s)(c \<mapsto> l1),
                            disconnectedPlayers :=
                              AList.update u (c, now) (disconnectedPlayers s)\<rparr>
                 in emit (Room c) (LobbyUpdated l1) s1)
          else
            let l1 = l\<lparr>participants := removeParticipant u (participants l)\<rparr>;
                s1 = s\<lparr>lobbies := (lobbies s)(c \<mapsto> l1)\<rparr>
            in if length (participants l1) = 0 \<or> u = host l1 then
                 emit (Room c) LobbyClosed
                   (s1\<lparr>lobbies := (lobbies s1)(c := None),
                       gameStates := (gameStates s1)(c := None)\<rparr>)
               else emit (Room c) (LobbyUpdated l1) s1)"

definition resetScores :: "participant list \<Rightarrow> (string \<rightharpoonup> jsnum) \<Rightarrow> (string \<rightharpoonup> jsnum)" where
  "resetScores ps sc = foldl (\<lambda>acc p. acc(username p \<mapsto> Num 0)) sc ps"

definition noImagesMessage :: string where
  "noImagesMessage = ''No images available. Please add images to the images/ folder''"

definition onStartGame :: "nat \<Rightarrow> string \<Rightarrow> string \<Rightarrow> server \<Rightarrow> server" where
  "onStartGame sid c u s =
     (case lobbies s c of
        None \<Rightarrow> s
      | Some l \<Rightarrow>
          if host l = u \<and> length (participants l) \<ge> 2 then
            if length (gameImages s) = 0
            then emit (ToSocket sid) (ErrorMessage noImagesMessage) s
            else
              let l1 = l\<lparr>gameStarted := True\<rparr>;
                  g = \<lparr>phase = ''discussion'', roundNumber = 1, totalRounds = 30,
                       currentImage = None, votes = Map.empty,
                       scores = resetScores (participants l1) Map.empty,
                       usedImages = [], timer = 60, timerInterval = None,
                       voteResults = \<lparr>overrated = 0, fairlyRated = 0, underrated = 0\<rparr>\<rparr>;
                  r = nextRef s;
                  s1 = s\<lparr>lobbies := (lobbies s)(c \<mapsto> l1),
                         heap := (heap s)(r \<mapsto> g),
                         nextRef := Suc r,
                         gameStates := (gameStates s)(c \<mapsto> r)\<rparr>;
                  s2 = emit (Room c) (GameStarted l1 g) s1
              in setTimeout (CbStartDiscussionPhase c) 2000 s2
          else s)"

text \<open>
  \<open>cast-vote\<close>. \<open>!gameState.votes[username]\<close> holds when no vote is stored and also
  when the stored vote is falsy. The statements after the assignment only build a log
  line.
\<close>

definition hasVoted :: "gameState \<Rightarrow> string \<Rightarrow> bool" where
  "hasVoted g u = (case votes g u of None \<Rightarrow> False | Some v \<Rightarrow> truthy v)"

definition onCastVote :: "string \<Rightarrow> string \<Rightarrow> string \<Rightarrow> server \<Rightarrow> server" where
  "onCastVote c u v s =
     (case getGameState s c of
        None \<Rightarrow> s
      | Some (r, g) \<Rightarrow>
          if phase g = ''voting'' \<and> \<not> hasVoted g u
          then setObject r (g\<lparr>votes := (votes g)(u \<mapsto> v)\<rparr>) s
          else s)"

definition onRestartGame :: "nat \<Rightarrow> string \<Rightarrow> server \<Rightarrow> server" where
  "onRestartGame sid c s =
     (case lobbies s c of
        None \<Rightarrow> s
      | Some l \<Rightarrow>
          (case getGameState s c of
             None \<Rightarrow> s
           | Some (r, g) \<Rightarrow>
               (case sockets s sid of
                  None \<Rightarrow> s
                | Some sock \<Rightarrow>
                    if sock_username sock = Some (host l) then
                      if length (gameImages s) = 0
                      then emit (ToSocket sid) (ErrorMessage noImagesMessage) s
                      else
                        let g1 = g\<lparr>phase := ''discussion'', roundNumber := 1,
                                   currentImage := None, votes := Map.empty,
                                   usedImages := [], timer := 60,
                                   voteResults :=
                                     \<lparr>overrated = 0, fairlyRated = 0, underrated = 0\<rparr>,
                                   scores := resetScores (participants l) (scores g)\<rparr>;
                            s1 = clearInterval (timerInterval g1) (setObject r g1 s);
                            s2 = emit (Room c) (GameStarted l g1) s1
                        in setTimeout (CbStartDiscussionPhase c) 2000 s2
                    else s)))"

text \<open>
  \<open>disconnect\<close>, for the socket \<open>sid\<close>; afterwards the socket is gone from
  \<open>io.sockets.sockets\<close>.
\<close>

definition onDisconnect :: "int \<Rightarrow> nat \<Rightarrow> server \<Rightarrow> server" where
  "onDisconnect now sid s =
     (case sockets s sid of
        None \<Rightarrow> s
      | Some sock \<Rightarrow>
          let s' =
            (case (sock_lobbyCode sock, sock_username sock) of
               (Some c, Some u) \<Rightarrow>
                 if truthy c \<and> truthy u then
                   (case lobbies s c of
                      None \<Rightarrow> s
                    | Some l \<Rightarrow>
                        (case findParticipant (participants l) u of
                           None \<Rightarrow> s
                         | Some participant \<Rightarrow>
                             if sessionActive s c then
                               let l1 = l\<lparr>participants :=
                                            setConnected u False (participants l)\<rparr>;
                                   s1 = s\<lparr>lobbies := (lobbies s)(c \<mapsto> l1),
                                          disconnectedPlayers :=
                                            AList.update u (c, now) (disconnectedPlayers s)\<rparr>
                               in emit (Room c) (LobbyUpdated l1) s1
                             else
                               let l1 = l\<lparr>participants :=
                                            removeParticipant u (participants l)\<rparr>;
                                   s1 = s\<lparr>lobbies := (lobbies s)(c \<mapsto> l1)\<rparr>
                               in if length (participants l1) = 0 \<or> u = host l1 then
                                    let s2 = (case getGameState s1 c of
                                                None \<Rightarrow> s1
                                              | Some (r, g) \<Rightarrow>
                                                  clearInterval (timerInterval g) s1)
                                    in emit (Room c) LobbyClosed
                                         (s2\<lparr>lobbies := (lobbies s2)(c := None),
                                             gameStates := (gameStates s2)(c := None)\<rparr>)
                                  else emit (Room c) (LobbyUpdated l1) s1))
                 else s
             | _ \<Rightarrow> s)
          in s'\<lparr>sockets := (sockets s')(sid := None)\<rparr>)"

section \<open>The periodic sweep of disconnected players\<close>

text \<open>
  One iteration of the \<open>forEach\<close> of the sweep, on the entry
  \<open>username \<mapsto> {code, timestamp}\<close>; the grace period is \<open>5 * 60 * 1000\<close> milliseconds.
\<close>

definition sweepEntry :: "int \<Rightarrow> server \<Rightarrow> string \<times> string \<times> int \<Rightarrow> server" where
  "sweepEntry now s entry =
     (case entry of
        (u, c, timestamp) \<Rightarrow>
          if now - timestamp > 5 * 60 * 1000 then
            let s1 = (case lobbies s c of
                        None \<Rightarrow> s
                      | Some l \<Rightarrow>
                          let l1 = l\<lparr>participants :=
                                       removeParticipant u (participants l)\<rparr>
                          in emit (Room c) (LobbyUpdated l1)
                               (s\<lparr>lobbies := (lobbies s)(c \<mapsto> l1)\<rparr>))
            in s1\<lparr>disconnectedPlayers := AList.delete u (disconnectedPlayers s1)\<rparr>
          else s)"

text \<open>
  The sweep visits the entries that are in the table when it starts; an iteration
  deletes only the entry it is visiting.
\<close>

definition sweep :: "int \<Rightarrow> server \<Rightarrow> server" where
  "sweep now s = foldl (sweepEntry now) s (disconnectedPlayers s)"

section \<open>The server as a transition system\<close>

text \<open>
  Everything that can happen to the server: a request on one of the two routes, a
  socket event, the two periodic jobs, a pending timeout coming due, and a tick of a
  live interval. Timestamps and random choices are carried by the input. The order
  in which pending timers come due is left to the environment.
\<close>

datatype input =
    HttpCreate string int "string option"
  | HttpJoin string string
  | Connection nat
  | JoinLobby nat string string
  | LeaveLobby nat int string string
  | StartGame nat string string
  | CastVote nat string string string
  | RequestSync nat string
  | RestartGame nat string
  | Disconnect nat int
  | Sweep int
  | LoadImages "string list option"
  | TimeoutDue nat nat
  | IntervalDue nat nat

definition removeAt :: "nat \<Rightarrow> 'a list \<Rightarrow> 'a list" where
  "removeAt i xs = take i xs @ drop (Suc i) xs"

definition exec :: "input \<Rightarrow> server \<Rightarrow> server" where
  "exec inp s =
     (case inp of
        HttpCreate random36 now u \<Rightarrow> snd (createLobby random36 now u s)
      | HttpJoin c u \<Rightarrow> snd (joinLobby c u s)
      | Connection sid \<Rightarrow> connection sid s
      | JoinLobby sid c u \<Rightarrow> if sockets s sid = None then s else onJoinLobby sid c u s
      | LeaveLobby sid now c u \<Rightarrow> if sockets s sid = None then s else onLeaveLobby now c u s
      | StartGame sid c u \<Rightarrow> if sockets s sid = None then s else onStartGame sid c u s
      | CastVote sid c u v \<Rightarrow> if sockets s sid = None then s else onCastVote c u v s
      | RequestSync sid c \<Rightarrow> syncGameStateToPlayer sid c s
      | RestartGame sid c \<Rightarrow> onRestartGame sid c s
      | Disconnect sid now \<Rightarrow> onDisconnect now sid s
      | Sweep now \<Rightarrow> sweep now s
      | LoadImages files \<Rightarrow> loadImages files s
      | TimeoutDue i randomIndex \<Rightarrow>
          (if i < length (timeouts s)
           then runCallback randomIndex (snd (timeouts s ! i))
                  (s\<lparr>timeouts := removeAt i (timeouts s)\<rparr>)
           else s)
      | IntervalDue h randomIndex \<Rightarrow> intervalTick randomIndex h s)"

definition run :: "input list \<Rightarrow> server \<Rightarrow> server" where
  "run inps s = foldl (\<lambda>st inp. exec inp st) s inps"

section \<open>Notions the properties are stated with\<close>

text \<open>The session of a lobby code, as a value.\<close>

definition session :: "server \<Rightarrow> string \<Rightarrow> gameState option" where
  "session s c = map_option snd (getGameState s c)"

text \<open>The vote the session of a lobby holds for a username.\<close>

definition storedVote :: "server \<Rightarrow> string \<Rightarrow> string \<Rightarrow> string option" where
  "storedVote s c u = (case session s c of None \<Rightarrow> None | Some g \<Rightarrow> votes g u)"

text \<open>The usernames of a lobby's participant list, in order.\<close>

definition usernamesOf :: "server \<Rightarrow> string \<Rightarrow> string list" where
  "usernamesOf s c = (case lobbies s c of None \<Rightarrow> [] | Some l \<Rightarrow> map username (participants l))"

text \<open>
  The specification's tally: the connected participants whose recorded vote is the
  given category.
\<close>

definition connectedVotes :: "string \<Rightarrow> participant list \<Rightarrow> (string \<rightharpoonup> string) \<Rightarrow> participant list" where
  "connectedVotes category ps vs =
     filter (\<lambda>p. connected p \<and> vs (username p) = Some category) ps"

text \<open>
  The specification's majority: the category whose count is strictly above both
  others, if there is one.
\<close>

definition strictlyHighest :: "vote_counts \<Rightarrow> string option" where
  "strictlyHighest vr =
     (if fairlyRated vr < overrated vr \<and> underrated vr < overrated vr
      then Some ''overrated''
      else if overrated vr < fairlyRated vr \<and> underrated vr < fairlyRated vr
      then Some ''fairlyRated''
      else if overrated vr < underrated vr \<and> fairlyRated vr < underrated vr
      then Some ''underrated''
      else None)"

text \<open>The \<open>gameState\<close> literal of \<open>start-game\<close>, for the given participants.\<close>

definition newSession :: "participant list \<Rightarrow> gameState" where
  "newSession ps =
     \<lparr>phase = ''discussion'', roundNumber = 1, totalRounds = 30, currentImage = None,
      votes = Map.empty, scores = resetScores ps Map.empty, usedImages = [], timer = 60,
      timerInterval = None,
      voteResults = \<lparr>overrated = 0, fairlyRated = 0, underrated = 0\<rparr>\<rparr>"

text \<open>The guard of \<open>start-game\<close>: the lobby exists, the request names its host, and it
  has at least two participants.\<close>

definition hostWithEnoughPlayers :: "server \<Rightarrow> string \<Rightarrow> string \<Rightarrow> bool" where
  "hostWithEnoughPlayers s c u =
     (case lobbies s c of None \<Rightarrow> False | Some l \<Rightarrow> host l = u \<and> 2 \<le> length (participants l))"

text \<open>The lobby literal of the create route.\<close>

definition newLobby :: "string \<Rightarrow> string \<Rightarrow> int \<Rightarrow> lobby" where
  "newLobby c u now =
     \<lparr>code = c, host = u,
      participants = [\<lparr>username = u, isHost = True, connected = True\<rparr>],
      createdAt = now, gameStarted = False\<rparr>"

text \<open>The specification's \<open>InvalidInput\<close>: the username is absent or shorter than two
  characters.\<close>

definition invalidUsername :: "string option \<Rightarrow> bool" where
  "invalidUsername u = (case u of None \<Rightarrow> True | Some name \<Rightarrow> length name < 2)"

definition isBadRequest :: "response \<Rightarrow> bool" where
  "isBadRequest res = (case res of BadRequest msg \<Rightarrow> True | _ \<Rightarrow> False)"

text \<open>
  The sweep's test on one entry, and the specification's reading of it: the username
  has a disconnection record for the lobby that is older than the grace period of
  300000 milliseconds.
\<close>

definition recordExpired :: "int \<Rightarrow> string \<times> string \<times> int \<Rightarrow> bool" where
  "recordExpired now entry = (case entry of (u, c, timestamp) \<Rightarrow> now - timestamp > 300000)"

definition sweptFrom :: "int \<Rightarrow> (string \<times> string \<times> int) list \<Rightarrow> string \<Rightarrow> string \<Rightarrow> bool" where
  "sweptFrom now records c u =
     list_ex (\<lambda>entry. recordExpired now entry \<and> u = fst entry \<and> c = fst (snd entry)) records"

subsection \<open>Relations between the states before and after a step\<close>

text \<open>
  A relation that holds of every session object before and after a step: the objects
  of the first state are all still there in the second, each related to its successor.
\<close>

definition objectsEvolve :: "(gameState \<Rightarrow> gameState \<Rightarrow> bool) \<Rightarrow> server \<Rightarrow> server \<Rightarrow> bool" where
  "objectsEvolve P s s' = (\<forall>r g. heap s r = Some g \<longrightarrow> (\<exists>g'. heap s' r = Some g' \<and> P g g'))"

text \<open>
  What a step may do to a session object. \<open>sessionKept\<close>: the round number and the
  total stay, no key leaves the score table, the used-index list only grows at its
  end, and the phase stays or becomes one of the five phases the code assigns.
  \<open>sessionAdvanced\<close>: the same, but the round number may also go up by one.
  \<open>sessionReset\<close>, for a restart: the round number may become 1 and the used-index
  list may be emptied. \<open>sessionGrown\<close> sums up any number of steps without a
  restart.
\<close>

definition knownPhases :: "string list" where
  "knownPhases = [''discussion'', ''voting'', ''results'', ''scoreboard'', ''waiting'']"

definition sessionKept :: "gameState \<Rightarrow> gameState \<Rightarrow> bool" where
  "sessionKept g g' =
     (roundNumber g' = roundNumber g \<and> totalRounds g' = totalRounds g
      \<and> dom (scores g) \<subseteq> dom (scores g')
      \<and> (\<exists>ks. usedImages g' = usedImages g @ ks)
      \<and> (phase g' = phase g \<or> phase g' \<in> set knownPhases))"

definition sessionAdvanced :: "gameState \<Rightarrow> gameState \<Rightarrow> bool" where
  "sessionAdvanced g g' =
     ((roundNumber g' = roundNumber g \<or> roundNumber g' = roundNumber g + 1)
      \<and> totalRounds g' = totalRounds g
      \<and> dom (scores g) \<subseteq> dom (scores g')
      \<and> (\<exists>ks. usedImages g' = usedImages g @ ks)
      \<and> (phase g' = phase g \<or> phase g' \<in> set knownPhases))"

definition sessionReset :: "gameState \<Rightarrow> gameState \<Rightarrow> bool" where
  "sessionReset g g' =
     ((roundNumber g' = roundNumber g \<or> roundNumber g' = 1)
      \<and> totalRounds g' = totalRounds g
      \<and> dom (scores g) \<subseteq> dom (scores g')
      \<and> (usedImages g' = usedImages g \<or> usedImages g' = [])
      \<and> (phase g' = phase g \<or> phase g' \<in> set knownPhases))"

definition sessionGrown :: "gameState \<Rightarrow> gameState \<Rightarrow> bool" where
  "sessionGrown g g' =
     (roundNumber g \<le> roundNumber g' \<and> totalRounds g' = totalRounds g
      \<and> dom (scores g) \<subseteq> dom (scores g')
      \<and> (\<exists>ks. usedImages g' = usedImages g @ ks))"

definition isRestart :: "input \<Rightarrow> bool" where
  "isRestart inp = (case inp of RestartGame sid c \<Rightarrow> True | _ \<Rightarrow> False)"

text \<open>
  References are allocated by \<open>start-game\<close> from \<open>nextRef\<close> upwards, so every object
  lies below it; \<open>sameObjects\<close> says a step allocates nothing.
\<close>

definition heapBounded :: "server \<Rightarrow> bool" where
  "heapBounded s = (\<forall>r. r \<in> dom (heap s) \<longrightarrow> r < nextRef s)"

definition sameObjects :: "server \<Rightarrow> server \<Rightarrow> bool" where
  "sameObjects s s' = (dom (heap s') = dom (heap s) \<and> nextRef s' = nextRef s)"

text \<open>
  Invariants of the reachable states: every session object is in a phase the code
  assigns, and a participant list holds each username once. \<open>distinctListings\<close> is
  the assumption on the environment that a directory listing holds each file name
  once.
\<close>

definition phasesKnown :: "server \<Rightarrow> bool" where
  "phasesKnown s = (\<forall>r g. heap s r = Some g \<longrightarrow> phase g \<in> set knownPhases)"


definition distinctListings :: "input list \<Rightarrow> bool" where
  "distinctListings inps =
     list_all (\<lambda>inp. case inp of LoadImages (Some fs) \<Rightarrow> distinct fs | _ \<Rightarrow> True) inps"

text \<open>
  A further invariant: a session belongs to a lobby, and each participant of that lobby
  has a number in the session's score table. It holds in the states reached by inputs
  that are \<open>collisionFree\<close>: no create request draws the code of a lobby that exists.
\<close>

definition numeric :: "jsnum option \<Rightarrow> bool" where
  "numeric v = (case v of Some (Num n) \<Rightarrow> True | _ \<Rightarrow> False)"

definition participantsScored :: "server \<Rightarrow> bool" where
  "participantsScored s =
     ((\<forall>c r. gameStates s c = Some r \<longrightarrow> r < nextRef s \<and> lobbies s c \<noteq> None)
      \<and> (\<forall>c r g l. gameStates s c = Some r \<and> heap s r = Some g \<and> lobbies s c = Some l \<longrightarrow>
            (\<forall>p \<in> set (participants l). numeric (scores g (username p)))))"


section \<open>Example states\<close>

text \<open>
  Lobby \<open>ABC123\<close> in the last second of the voting phase of round 3; images 2, 0
  and 4 of the six catalog images have been shown. Alice (host) and carol are
  connected and voted \<open>overrated\<close>, bob voted \<open>overrated\<close> and then disconnected,
  dave is connected and voted \<open>fairlyRated\<close>, erin is connected and has not voted.
  The score table still holds an entry for zed, who scored in round 1 and is no longer
  a participant. The log of emitted events starts empty here.
\<close>

definition exampleLobby :: lobby where
  "exampleLobby =
     \<lparr>code = ''ABC123'', host = ''alice'',
      participants =
        [\<lparr>username = ''alice'', isHost = True, connected = True\<rparr>,
         \<lparr>username = ''bob'', isHost = False, connected = False\<rparr>,
         \<lparr>username = ''carol'', isHost = False, connected = True\<rparr>,
         \<lparr>username = ''dave'', isHost = False, connected = True\<rparr>,
         \<lparr>username = ''erin'', isHost = False, connected = True\<rparr>],
      createdAt = 1000, gameStarted = True\<rparr>"

definition votingState :: gameState where
  "votingState =
     \<lparr>phase = ''voting'', roundNumber = 3, totalRounds = 30,
      currentImage = Some ''/images/e.png'',
      votes = [''alice'' \<mapsto> ''overrated'', ''bob'' \<mapsto> ''overrated'',
               ''carol'' \<mapsto> ''overrated'', ''dave'' \<mapsto> ''fairlyRated''],
      scores = [''alice'' \<mapsto> Num 2, ''bob'' \<mapsto> Num 1, ''carol'' \<mapsto> Num 1,
                ''dave'' \<mapsto> Num 0, ''erin'' \<mapsto> Num 0, ''zed'' \<mapsto> Num 1],
      usedImages = [2, 0, 4], timer = 1, timerInterval = Some 5,
      voteResults = \<lparr>overrated = 0, fairlyRated = 0, underrated = 0\<rparr>\<rparr>"

definition votingServer :: server where
  "votingServer =
     \<lparr>lobbies = [''ABC123'' \<mapsto> exampleLobby],
      gameStates = [''ABC123'' \<mapsto> 0],
      heap = [0 \<mapsto> votingState],
      nextRef = 1,
      disconnectedPlayers = [(''bob'', ''ABC123'', 5000)],
      gameImages = [''/images/a.png'', ''/images/b.png'', ''/images/c.png'',
                    ''/images/d.png'', ''/images/e.png'', ''/images/f.png''],
      sockets = [1 \<mapsto> \<lparr>sock_username = Some ''alice'', sock_lobbyCode = Some ''ABC123''\<rparr>,
                 3 \<mapsto> \<lparr>sock_username = Some ''carol'', sock_lobbyCode = Some ''ABC123''\<rparr>,
                 4 \<mapsto> \<lparr>sock_username = Some ''dave'', sock_lobbyCode = Some ''ABC123''\<rparr>,
                 5 \<mapsto> \<lparr>sock_username = Some ''erin'', sock_lobbyCode = Some ''ABC123''\<rparr>],
      timeouts = [],
      intervals = [5 \<mapsto> \<lparr>iv_gameState = 0, iv_code = ''ABC123'',
                            iv_callback = CbCalculateResults ''ABC123''\<rparr>],
      nextHandle = 6,
      emitted = []\<rparr>"

text \<open>
  The example lobby in the voting phase of the last round: 30 of the 32 catalog images
  are used.
\<close>

definition largeCatalog :: "string list" where
  "largeCatalog =
     map (\<lambda>name. ''/images/'' @ name @ ''.png'')
       [''a0'', ''a1'', ''a2'', ''a3'', ''a4'', ''a5'', ''a6'', ''a7'', ''a8'', ''a9'',
        ''b0'', ''b1'', ''b2'', ''b3'', ''b4'', ''b5'', ''b6'', ''b7'', ''b8'', ''b9'',
        ''c0'', ''c1'', ''c2'', ''c3'', ''c4'', ''c5'', ''c6'', ''c7'', ''c8'', ''c9'',
        ''d0'', ''d1'']"

definition lastRoundState :: gameState where
  "lastRoundState =
     votingState\<lparr>roundNumber := 30,
                  currentImage := Some ''/images/c9.png'',
                  usedImages := [0, 1, 2, 3, 4, 5, 6, 7, 8, 9, 10, 11, 12, 13, 14, 15, 16, 17,
                                 18, 19, 20, 21, 22, 23, 24, 25, 26, 27, 28, 29]\<rparr>"

definition lastRoundServer :: server where
  "lastRoundServer =
     votingServer\<lparr>
       heap := [0 \<mapsto> lastRoundState],
       gameImages := largeCatalog\<rparr>"

text \<open>
  The example lobby between rounds 3 and 4: the voting timer expired, the results and
  the scoreboard were shown, and the round advance has put the session in phase
  \<open>waiting\<close>.
\<close>

definition betweenRounds :: server where
  "betweenRounds = run [IntervalDue 5 0, TimeoutDue 0 0, TimeoutDue 0 0] votingServer"

text \<open>
  Lobby \<open>ABC123\<close> before any game: alice created it, bob joined, both sockets are
  connected, the catalog holds two images.
\<close>

definition preGameLobby :: lobby where
  "preGameLobby =
     \<lparr>code = ''ABC123'', host = ''alice'',
      participants =
        [\<lparr>username = ''alice'', isHost = True, connected = True\<rparr>,
         \<lparr>username = ''bob'', isHost = False, connected = True\<rparr>],
      createdAt = 1000, gameStarted = False\<rparr>"

definition preGameServer :: server where
  "preGameServer =
     \<lparr>lobbies = [''ABC123'' \<mapsto> preGameLobby],
      gameStates = Map.empty,
      heap = Map.empty,
      nextRef = 0,
      disconnectedPlayers = [],
      gameImages = [''/images/a.png'', ''/images/b.jpg''],
      sockets = [1 \<mapsto> \<lparr>sock_username = Some ''alice'', sock_lobbyCode = Some ''ABC123''\<rparr>,
                 2 \<mapsto> \<lparr>sock_username = Some ''bob'', sock_lobbyCode = Some ''ABC123''\<rparr>],
      timeouts = [],
      intervals = Map.empty,
      nextHandle = 0,
      emitted = [(Room ''ABC123'', LobbyUpdated (preGameLobby\<lparr>participants :=
                    [\<lparr>username = ''alice'', isHost = True, connected = True\<rparr>]\<rparr>)),
                 (Room ''ABC123'', LobbyUpdated preGameLobby)]\<rparr>"

subsection \<open>A first round played from the initial state\<close>














section \<open>Evaluating the model on concrete states\<close>

lemmas prim_defs = getGameState_def setObject_def emit_def setTimeout_def clearInterval_def Let_def

lemmas handler_defs = exec_def createLobby_def joinLobby_def connection_def onJoinLobby_def onLeaveLobby_def
  onStartGame_def onCastVote_def onRestartGame_def onDisconnect_def sweep_def sweepEntry_def loadImages_def
  runCallback_def intervalTick_def startDiscussionPhase_def startVotingPhase_def calculateResults_def
  showScoreboard_def advanceRound_def endGame_def startTimer_def syncGameStateToPlayer_def
  getGameState_def setObject_def emit_def setTimeout_def clearInterval_def sessionActive_def
  findParticipant_def removeParticipant_def resetScores_def truthy_def hasVoted_def
  generateLobbyCode_def upperChar_def lowerChar_def extname_def availableImages_def element_def
  removeAt_def session_def Let_def

lemmas example_defs = votingServer_def votingState_def exampleLobby_def lastRoundServer_def
  lastRoundState_def largeCatalog_def preGameServer_def preGameLobby_def


subsection \<open>Runs\<close>








subsection \<open>The first round\<close>











section \<open>Facts about every step\<close>

subsection \<open>Participants\<close>

lemma setConnected_usernames: "map username (setConnected u b ps) = map username ps"
  by (induction ps) auto

lemma setConnected_find:
  "findParticipant ps u = Some p \<Longrightarrow>
   findParticipant (setConnected u b ps) u = Some (p\<lparr>connected := b\<rparr>)"
  by (induction ps) (auto simp: findParticipant_def)

lemma setConnected_find_other:
  "u' \<noteq> u \<Longrightarrow> findParticipant (setConnected u b ps) u' = findParticipant ps u'"
  by (induction ps) (auto simp: findParticipant_def)


lemma sweepEntry_lobbies:
  "lobbies (sweepEntry now s e) c =
     map_option (\<lambda>l. l\<lparr>participants :=
         filter (\<lambda>p. \<not> (recordExpired now e \<and> username p = fst e \<and> c = fst (snd e)))
           (participants l)\<rparr>) (lobbies s c)"
proof -
  obtain u c' ts where e: "e = (u, c', ts)" by (cases e) auto
  show ?thesis
  proof (cases "recordExpired now e")
    case False
    then show ?thesis
      by (cases "lobbies s c") (simp_all add: sweepEntry_def e recordExpired_def)
  next
    case True
    then have x: "now - ts > 5 * 60 * 1000"
      by (simp add: e recordExpired_def)
    show ?thesis
    proof (cases "c' = c")
      case True
      with x show ?thesis
        by (cases "lobbies s c")
          (simp_all add: sweepEntry_def e recordExpired_def emit_def Let_def
            removeParticipant_def)
    next
      case False
      with x show ?thesis
        by (cases "lobbies s c"; cases "lobbies s c'")
          (simp_all add: sweepEntry_def e recordExpired_def emit_def Let_def)
    qed
  qed
qed

lemma foldl_sweepEntry_lobbies:
  "lobbies (foldl (sweepEntry now) s es) c =
     map_option (\<lambda>l. l\<lparr>participants :=
         filter (\<lambda>p. \<not> sweptFrom now es c (username p)) (participants l)\<rparr>) (lobbies s c)"
proof (induction es arbitrary: s)
  case Nil
  show ?case by (cases "lobbies s c") (simp_all add: sweptFrom_def)
next
  case (Cons e es)
  show ?case
    unfolding foldl_Cons Cons.IH sweepEntry_lobbies
    by (cases "lobbies s c") (auto simp: sweptFrom_def intro!: filter_cong)
qed

lemma sweep_lobbies:
  "lobbies (sweep now s) c =
     map_option (\<lambda>l. l\<lparr>participants :=
         filter (\<lambda>p. \<not> sweptFrom now (disconnectedPlayers s) c (username p)) (participants l)\<rparr>)
       (lobbies s c)"
  by (simp add: sweep_def foldl_sweepEntry_lobbies)

subsection \<open>Score tables\<close>

lemma foldl_reset:
  "foldl (\<lambda>acc p. acc(username p \<mapsto> Num 0)) sc ps u =
     (if u \<in> username ` set ps then Some (Num 0) else sc u)"
  by (induction ps arbitrary: sc) auto

lemma resetScores_apply:
  "resetScores ps sc u = (if u \<in> username ` set ps then Some (Num 0) else sc u)"
  by (simp add: resetScores_def foldl_reset)

lemma dom_foldl_awardPoint: "dom sc \<subseteq> dom (foldl (awardPoint m vs) sc ps)"
proof (induction ps arbitrary: sc)
  case Nil
  show ?case by simp
next
  case (Cons p ps)
  have "dom sc \<subseteq> dom (awardPoint m vs sc p)"
    by (auto simp: awardPoint_def)
  with Cons [of "awardPoint m vs sc p"] show ?case
    by auto
qed

lemma dom_awardPoints: "dom sc \<subseteq> dom (awardPoints mo vs ps sc)"
  using dom_foldl_awardPoint by (auto simp: awardPoints_def split: option.splits)

lemma dom_resetScores: "dom sc \<subseteq> dom (resetScores ps sc)"
  by (auto simp: resetScores_apply)

subsection \<open>What a step does to the session objects\<close>

lemmas frame_defs = objectsEvolve_def sessionKept_def knownPhases_def prim_defs

lemma sessionKept_refl: "objectsEvolve sessionKept s s"
  by (simp add: objectsEvolve_def sessionKept_def)

lemma sessionKept_advanced:
  "objectsEvolve sessionKept s s' \<Longrightarrow> objectsEvolve sessionAdvanced s s'"
  by (fastforce simp: objectsEvolve_def sessionKept_def sessionAdvanced_def)

lemma sessionKept_then_advanced:
  assumes "objectsEvolve sessionKept s s'" and "objectsEvolve sessionAdvanced s' s''"
  shows "objectsEvolve sessionAdvanced s s''"
  unfolding objectsEvolve_def
proof (intro allI impI)
  fix r g
  assume "heap s r = Some g"
  with assms(1) obtain g' where 1: "heap s' r = Some g'" "sessionKept g g'"
    by (auto simp: objectsEvolve_def)
  with assms(2) obtain g'' where 2: "heap s'' r = Some g''" "sessionAdvanced g' g''"
    by (auto simp: objectsEvolve_def)
  from 1(2) 2(2) have "sessionAdvanced g g''"
    unfolding sessionKept_def sessionAdvanced_def by (elim conjE exE) auto
  with 2(1) show "\<exists>g''. heap s'' r = Some g'' \<and> sessionAdvanced g g''"
    by blast
qed

lemma heap_only_sessionKept: "heap s' = heap s \<Longrightarrow> objectsEvolve sessionKept s s'"
  by (simp add: objectsEvolve_def sessionKept_def)

lemma startTimer_sessionKept: "objectsEvolve sessionKept s (startTimer c n cb s)"
  by (auto simp: frame_defs startTimer_def split: option.splits)

lemma endGame_sessionKept: "objectsEvolve sessionKept s (endGame c s)"
  by (auto simp: frame_defs endGame_def split: option.splits)

lemma startDiscussionPhase_sessionKept: "objectsEvolve sessionKept s (startDiscussionPhase i c s)"
  by (auto simp: frame_defs startDiscussionPhase_def startTimer_def endGame_def split: option.splits)

lemma startVotingPhase_sessionKept: "objectsEvolve sessionKept s (startVotingPhase c s)"
  by (auto simp: frame_defs startVotingPhase_def startTimer_def split: option.splits)

lemma calculateResults_sessionKept: "objectsEvolve sessionKept s (calculateResults c s)"
  using dom_awardPoints
  by (auto simp: frame_defs calculateResults_def split: option.splits)

lemma showScoreboard_sessionKept: "objectsEvolve sessionKept s (showScoreboard c s)"
  by (auto simp: frame_defs showScoreboard_def split: option.splits)

lemma advanceRound_sessionAdvanced: "objectsEvolve sessionAdvanced s (advanceRound r c s)"
  by (auto simp: objectsEvolve_def sessionAdvanced_def knownPhases_def prim_defs advanceRound_def endGame_def split: option.splits)

lemma syncGameStateToPlayer_sessionKept: "objectsEvolve sessionKept s (syncGameStateToPlayer sid c s)"
  by (auto simp: frame_defs syncGameStateToPlayer_def split: option.splits)

lemma runCallback_sessionAdvanced: "objectsEvolve sessionAdvanced s (runCallback i cb s)"
  unfolding runCallback_def
  by (cases cb)
    (simp_all add: sessionKept_advanced startDiscussionPhase_sessionKept startVotingPhase_sessionKept
      calculateResults_sessionKept showScoreboard_sessionKept advanceRound_sessionAdvanced
      syncGameStateToPlayer_sessionKept)

lemma intervalTick_sessionAdvanced: "objectsEvolve sessionAdvanced s (intervalTick i h s)"
proof (cases "intervals s h")
  case None
  then show ?thesis
    by (simp add: intervalTick_def sessionKept_advanced sessionKept_refl)
next
  case (Some iv)
  show ?thesis
  proof (cases "heap s (iv_gameState iv)")
    case None
    with Some show ?thesis
      by (simp add: intervalTick_def sessionKept_advanced sessionKept_refl)
  next
    case g: (Some g)
    let ?g1 = "g\<lparr>timer := timer g - 1\<rparr>"
    let ?s1 = "emit (Room (iv_code iv)) (GameTimer (timer ?g1)) (setObject (iv_gameState iv) ?g1 s)"
    let ?s3 = "setObject (iv_gameState iv) (?g1\<lparr>timerInterval := None\<rparr>)
                 (clearInterval (timerInterval ?g1) ?s1)"
    have 1: "objectsEvolve sessionKept s ?s1"
      using g by (auto simp: frame_defs)
    have 3: "objectsEvolve sessionKept s ?s3"
      using g by (auto simp: frame_defs split: option.splits)
    have "intervalTick i h s =
            (if timer ?g1 \<le> 0 then runCallback i (iv_callback iv) ?s3 else ?s1)"
      using Some g by (simp add: intervalTick_def Let_def)
    with 1 3 show ?thesis
      by (auto intro: sessionKept_advanced sessionKept_then_advanced runCallback_sessionAdvanced)
  qed
qed

lemma createLobby_heap: "heap (snd (createLobby x now u s)) = heap s"
  by (simp add: createLobby_def Let_def split: option.splits)

lemma joinLobby_sessionKept: "objectsEvolve sessionKept s (snd (joinLobby c u s))"
  by (auto simp: frame_defs joinLobby_def split: option.splits)

lemma onJoinLobby_heap: "heap (onJoinLobby sid c u s) = heap s"
  by (simp add: onJoinLobby_def prim_defs split: option.splits)

lemma onLeaveLobby_heap: "heap (onLeaveLobby now c u s) = heap s"
  by (simp add: onLeaveLobby_def prim_defs split: option.splits)

lemma onDisconnect_heap: "heap (onDisconnect now sid s) = heap s"
  by (simp add: onDisconnect_def prim_defs split: option.splits)

lemma sweepEntry_heap: "heap (sweepEntry now s e) = heap s"
  by (simp add: sweepEntry_def prim_defs split: option.splits prod.splits)

lemma sweep_heap: "heap (sweep now s) = heap s"
proof -
  have "heap (foldl (sweepEntry now) s es) = heap s" for es
    by (induction es arbitrary: s) (simp_all add: sweepEntry_heap)
  then show ?thesis by (simp add: sweep_def)
qed

lemma onCastVote_sessionKept: "objectsEvolve sessionKept s (onCastVote c u v s)"
  by (auto simp: frame_defs onCastVote_def split: option.splits)

lemma onStartGame_sessionKept:
  "heapBounded s \<Longrightarrow> objectsEvolve sessionKept s (onStartGame sid c u s)"
  by (auto simp: heapBounded_def frame_defs onStartGame_def split: option.splits)

lemma onRestartGame_sessionReset: "objectsEvolve sessionReset s (onRestartGame sid c s)"
  using dom_resetScores
  by (auto simp: objectsEvolve_def sessionReset_def knownPhases_def prim_defs onRestartGame_def split: option.splits)

lemma exec_sessionAdvanced:
  assumes "heapBounded s" and "\<not> isRestart inp"
  shows "objectsEvolve sessionAdvanced s (exec inp s)"
proof (cases inp)
  case (HttpCreate x now u)
  then show ?thesis
    by (simp add: exec_def sessionKept_advanced heap_only_sessionKept createLobby_heap)
next
  case (HttpJoin c u)
  then show ?thesis
    by (simp add: exec_def sessionKept_advanced joinLobby_sessionKept)
next
  case (Connection sid)
  then show ?thesis
    by (simp add: exec_def connection_def sessionKept_advanced heap_only_sessionKept)
next
  case (JoinLobby sid c u)
  then show ?thesis
    by (simp add: exec_def sessionKept_advanced heap_only_sessionKept onJoinLobby_heap)
next
  case (LeaveLobby sid now c u)
  then show ?thesis
    by (simp add: exec_def sessionKept_advanced heap_only_sessionKept onLeaveLobby_heap)
next
  case (StartGame sid c u)
  then show ?thesis
    using assms(1)
    by (simp add: exec_def sessionKept_advanced sessionKept_refl onStartGame_sessionKept)
next
  case (CastVote sid c u v)
  then show ?thesis
    by (simp add: exec_def sessionKept_advanced sessionKept_refl onCastVote_sessionKept)
next
  case (RequestSync sid c)
  then show ?thesis
    by (simp add: exec_def sessionKept_advanced syncGameStateToPlayer_sessionKept)
next
  case (RestartGame sid c)
  with assms(2) show ?thesis
    by (simp add: isRestart_def)
next
  case (Disconnect sid now)
  then show ?thesis
    by (simp add: exec_def sessionKept_advanced heap_only_sessionKept onDisconnect_heap)
next
  case (Sweep now)
  then show ?thesis
    by (simp add: exec_def sessionKept_advanced heap_only_sessionKept sweep_heap)
next
  case (LoadImages files)
  then show ?thesis
    by (simp add: exec_def loadImages_def sessionKept_advanced heap_only_sessionKept
        split: option.splits)
next
  case (TimeoutDue i k)
  have "objectsEvolve sessionKept s (s\<lparr>timeouts := removeAt i (timeouts s)\<rparr>)"
    by (simp add: heap_only_sessionKept)
  with TimeoutDue show ?thesis
    by (auto simp: exec_def sessionKept_advanced sessionKept_refl
        intro: sessionKept_then_advanced runCallback_sessionAdvanced)
next
  case (IntervalDue h k)
  then show ?thesis
    by (simp add: exec_def intervalTick_sessionAdvanced)
qed

lemma exec_session:
  assumes "heapBounded s" and "heap s r = Some g"
  shows "\<exists>g'. heap (exec inp s) r = Some g'
     \<and> (if isRestart inp then sessionReset g g' else sessionAdvanced g g')"
proof (cases "isRestart inp")
  case False
  from exec_sessionAdvanced [OF assms(1) False] assms(2) False show ?thesis
    by (auto simp: objectsEvolve_def)
next
  case True
  then obtain sid c where "inp = RestartGame sid c"
    by (auto simp: isRestart_def split: input.splits)
  with onRestartGame_sessionReset [of s sid c] assms(2) True show ?thesis
    by (auto simp: objectsEvolve_def exec_def)
qed

subsection \<open>Only start-game allocates a session object\<close>

lemma sameObjects_trans: "sameObjects s s' \<Longrightarrow> sameObjects s' s'' \<Longrightarrow> sameObjects s s''"
  by (simp add: sameObjects_def)

lemma sameObjects_heap: "heap s' = heap s \<Longrightarrow> nextRef s' = nextRef s \<Longrightarrow> sameObjects s s'"
  by (simp add: sameObjects_def)

lemma setObject_sameObjects: "heap s r = Some g \<Longrightarrow> sameObjects s (setObject r g' s)"
  by (auto simp: sameObjects_def setObject_def)

lemma startTimer_sameObjects: "sameObjects s (startTimer c n cb s)"
  by (auto simp: sameObjects_def startTimer_def prim_defs split: option.splits)

lemma endGame_sameObjects: "sameObjects s (endGame c s)"
  by (auto simp: sameObjects_def endGame_def prim_defs split: option.splits)

lemma startDiscussionPhase_sameObjects: "sameObjects s (startDiscussionPhase i c s)"
  by (auto simp: sameObjects_def startDiscussionPhase_def startTimer_def endGame_def prim_defs split: option.splits)

lemma startVotingPhase_sameObjects: "sameObjects s (startVotingPhase c s)"
  by (auto simp: sameObjects_def startVotingPhase_def startTimer_def prim_defs split: option.splits)

lemma calculateResults_sameObjects: "sameObjects s (calculateResults c s)"
  by (auto simp: sameObjects_def calculateResults_def prim_defs split: option.splits)

lemma showScoreboard_sameObjects: "sameObjects s (showScoreboard c s)"
  by (auto simp: sameObjects_def showScoreboard_def prim_defs split: option.splits)

lemma advanceRound_sameObjects: "sameObjects s (advanceRound r c s)"
  by (auto simp: sameObjects_def advanceRound_def endGame_def prim_defs split: option.splits)

lemma syncGameStateToPlayer_sameObjects: "sameObjects s (syncGameStateToPlayer sid c s)"
  by (auto simp: sameObjects_def syncGameStateToPlayer_def prim_defs split: option.splits)

lemma runCallback_sameObjects: "sameObjects s (runCallback i cb s)"
  unfolding runCallback_def
  by (cases cb)
    (simp_all add: startDiscussionPhase_sameObjects startVotingPhase_sameObjects
      calculateResults_sameObjects showScoreboard_sameObjects advanceRound_sameObjects
      syncGameStateToPlayer_sameObjects)

lemma intervalTick_sameObjects: "sameObjects s (intervalTick i h s)"
proof (cases "intervals s h")
  case None
  then show ?thesis by (simp add: intervalTick_def sameObjects_def)
next
  case (Some iv)
  show ?thesis
  proof (cases "heap s (iv_gameState iv)")
    case None
    with Some show ?thesis by (simp add: intervalTick_def sameObjects_def)
  next
    case g: (Some g)
    let ?g1 = "g\<lparr>timer := timer g - 1\<rparr>"
    let ?s1 = "emit (Room (iv_code iv)) (GameTimer (timer ?g1)) (setObject (iv_gameState iv) ?g1 s)"
    let ?s3 = "setObject (iv_gameState iv) (?g1\<lparr>timerInterval := None\<rparr>)
                 (clearInterval (timerInterval ?g1) ?s1)"
    have 1: "sameObjects s ?s1"
      using g by (auto simp: sameObjects_def prim_defs)
    have 3: "sameObjects s ?s3"
      using g by (auto simp: sameObjects_def prim_defs split: option.splits)
    have "intervalTick i h s =
            (if timer ?g1 \<le> 0 then runCallback i (iv_callback iv) ?s3 else ?s1)"
      using Some g by (simp add: intervalTick_def Let_def)
    with 1 3 show ?thesis
      by (auto intro: sameObjects_trans runCallback_sameObjects)
  qed
qed

lemma joinLobby_sameObjects: "sameObjects s (snd (joinLobby c u s))"
  by (auto simp: sameObjects_def joinLobby_def prim_defs split: option.splits)

lemma onCastVote_sameObjects: "sameObjects s (onCastVote c u v s)"
  by (auto simp: sameObjects_def onCastVote_def prim_defs split: option.splits)

lemma onRestartGame_sameObjects: "sameObjects s (onRestartGame sid c s)"
  by (auto simp: sameObjects_def onRestartGame_def prim_defs split: option.splits)

lemma sameObjects_bounded: "sameObjects s s' \<Longrightarrow> heapBounded s \<Longrightarrow> heapBounded s'"
  by (simp add: sameObjects_def heapBounded_def)

lemma onStartGame_bounded: "heapBounded s \<Longrightarrow> heapBounded (onStartGame sid c u s)"
  by (auto simp: heapBounded_def onStartGame_def prim_defs less_Suc_eq split: option.splits)

lemma sweepEntry_nextRef: "nextRef (sweepEntry now s e) = nextRef s"
  by (simp add: sweepEntry_def prim_defs split: option.splits prod.splits)

lemma sweep_nextRef: "nextRef (sweep now s) = nextRef s"
proof -
  have "nextRef (foldl (sweepEntry now) s es) = nextRef s" for es
    by (induction es arbitrary: s) (simp_all add: sweepEntry_nextRef)
  then show ?thesis by (simp add: sweep_def)
qed

lemma exec_sameObjects:
  assumes "\<forall>sid c u. inp \<noteq> StartGame sid c u"
  shows "sameObjects s (exec inp s)"
proof (cases inp)
  case (StartGame sid c u)
  with assms show ?thesis by simp
next
  case (TimeoutDue i k)
  let ?s1 = "s\<lparr>timeouts := removeAt i (timeouts s)\<rparr>"
  have "sameObjects s ?s1"
    by (simp add: sameObjects_def)
  then have "sameObjects s (runCallback k (snd (timeouts s ! i)) ?s1)"
    by (rule sameObjects_trans) (rule runCallback_sameObjects)
  with TimeoutDue show ?thesis
    by (simp add: exec_def sameObjects_def)
next
  case (Sweep now)
  then show ?thesis
    by (simp add: exec_def sameObjects_def sweep_heap sweep_nextRef)
qed (simp_all add: exec_def sameObjects_heap createLobby_def connection_def loadImages_def
      onJoinLobby_def onLeaveLobby_def onDisconnect_def prim_defs
      joinLobby_sameObjects onCastVote_sameObjects onRestartGame_sameObjects
      syncGameStateToPlayer_sameObjects intervalTick_sameObjects split: option.splits)

lemma exec_heapBounded: "heapBounded s \<Longrightarrow> heapBounded (exec inp s)"
proof (cases "\<exists>sid c u. inp = StartGame sid c u")
  case True
  then obtain sid c u where "inp = StartGame sid c u"
    by blast
  then show "heapBounded s \<Longrightarrow> ?thesis"
    by (simp add: exec_def onStartGame_bounded)
next
  case False
  then have "sameObjects s (exec inp s)"
    by (simp add: exec_sameObjects)
  then show "heapBounded s \<Longrightarrow> ?thesis"
    by (rule sameObjects_bounded)
qed

lemma run_heapBounded: "heapBounded s \<Longrightarrow> heapBounded (run inps s)"
  unfolding run_def by (induction inps arbitrary: s) (simp_all add: exec_heapBounded)

lemma reachable_heapBounded: "heapBounded (run inps initialServer)"
  by (rule run_heapBounded) (simp add: heapBounded_def initialServer_def)

subsection \<open>Runs without a restart\<close>

lemma run_without_restart:
  assumes "heapBounded s" and "list_all (\<lambda>inp. \<not> isRestart inp) inps" and "heap s r = Some g"
  shows "\<exists>g'. heap (run inps s) r = Some g' \<and> sessionGrown g g'"
  using assms
proof (induction inps arbitrary: s g)
  case Nil
  then show ?case by (simp add: run_def sessionGrown_def)
next
  case (Cons inp inps)
  from Cons.prems have n: "\<not> isRestart inp" and rest: "list_all (\<lambda>inp. \<not> isRestart inp) inps"
    by simp_all
  from exec_session [OF Cons.prems(1,3), of inp] n obtain g1
    where 1: "heap (exec inp s) r = Some g1" and a: "sessionAdvanced g g1"
    by auto
  from Cons.IH [OF exec_heapBounded [OF Cons.prems(1)] rest 1] obtain g'
    where 2: "heap (run inps (exec inp s)) r = Some g'" and b: "sessionGrown g1 g'"
    by blast
  from a b have "sessionGrown g g'"
    unfolding sessionAdvanced_def sessionGrown_def by (elim conjE exE) auto
  with 2 show ?case
    by (auto simp: run_def)
qed

subsection \<open>The phases of the reachable states\<close>

lemma onStartGame_phasesKnown: "phasesKnown s \<Longrightarrow> phasesKnown (onStartGame sid c u s)"
  by (auto simp: phasesKnown_def knownPhases_def onStartGame_def prim_defs split: option.splits)

lemma exec_phasesKnown:
  assumes "heapBounded s" and "phasesKnown s"
  shows "phasesKnown (exec inp s)"
proof (cases "\<exists>sid c u. inp = StartGame sid c u")
  case True
  then obtain sid c u where "inp = StartGame sid c u"
    by blast
  with assms(2) show ?thesis
    by (simp add: exec_def onStartGame_phasesKnown)
next
  case False
  then have same: "sameObjects s (exec inp s)"
    by (simp add: exec_sameObjects)
  show ?thesis
    unfolding phasesKnown_def
  proof (intro allI impI)
    fix r g'
    assume g': "heap (exec inp s) r = Some g'"
    with same obtain g where g: "heap s r = Some g"
      by (auto simp: sameObjects_def dom_def set_eq_iff)
    from exec_session [OF assms(1) g, of inp] g'
    have "phase g' = phase g \<or> phase g' \<in> set knownPhases"
      by (auto simp: sessionReset_def sessionAdvanced_def split: if_splits)
    with assms(2) g show "phase g' \<in> set knownPhases"
      by (auto simp: phasesKnown_def)
  qed
qed

lemma reachable_phasesKnown: "phasesKnown (run inps initialServer)"
proof -
  have step: "heapBounded s \<Longrightarrow> phasesKnown s \<Longrightarrow> phasesKnown (run inps s)" for s
    unfolding run_def
    by (induction inps arbitrary: s) (simp_all add: exec_phasesKnown exec_heapBounded)
  have "heapBounded initialServer" and "phasesKnown initialServer"
    by (simp_all add: heapBounded_def phasesKnown_def initialServer_def)
  then show ?thesis
    by (rule step)
qed

lemma reachable_never_ended:
  assumes "heap (run inps initialServer) r = Some g"
  shows "phase g \<noteq> ''ended''"
proof -
  from reachable_phasesKnown [of inps] assms have "phase g \<in> set knownPhases"
    by (simp add: phasesKnown_def)
  then show ?thesis
    by (auto simp: knownPhases_def)
qed

subsection \<open>Usernames are unique within a lobby\<close>

lemma startTimer_directory:
  "lobbies (startTimer c n cb s) = lobbies s \<and> gameImages (startTimer c n cb s) = gameImages s"
  by (simp add: startTimer_def prim_defs split: option.splits)

lemma endGame_directory:
  "lobbies (endGame c s) = lobbies s \<and> gameImages (endGame c s) = gameImages s"
  by (simp add: endGame_def prim_defs split: option.splits)

lemma startDiscussionPhase_directory:
  "lobbies (startDiscussionPhase i c s) = lobbies s
   \<and> gameImages (startDiscussionPhase i c s) = gameImages s"
  by (simp add: startDiscussionPhase_def startTimer_def endGame_def prim_defs split: option.splits)

lemma startVotingPhase_directory:
  "lobbies (startVotingPhase c s) = lobbies s \<and> gameImages (startVotingPhase c s) = gameImages s"
  by (simp add: startVotingPhase_def startTimer_def prim_defs split: option.splits)

lemma calculateResults_directory:
  "lobbies (calculateResults c s) = lobbies s \<and> gameImages (calculateResults c s) = gameImages s"
  by (simp add: calculateResults_def prim_defs split: option.splits)

lemma showScoreboard_directory:
  "lobbies (showScoreboard c s) = lobbies s \<and> gameImages (showScoreboard c s) = gameImages s"
  by (simp add: showScoreboard_def prim_defs split: option.splits)

lemma advanceRound_directory:
  "lobbies (advanceRound r c s) = lobbies s \<and> gameImages (advanceRound r c s) = gameImages s"
  by (simp add: advanceRound_def endGame_def prim_defs split: option.splits)

lemma syncGameStateToPlayer_directory:
  "lobbies (syncGameStateToPlayer sid c s) = lobbies s
   \<and> gameImages (syncGameStateToPlayer sid c s) = gameImages s"
  by (simp add: syncGameStateToPlayer_def prim_defs split: option.splits)

lemma runCallback_directory:
  "lobbies (runCallback i cb s) = lobbies s \<and> gameImages (runCallback i cb s) = gameImages s"
  unfolding runCallback_def
  by (cases cb)
    (simp_all add: startDiscussionPhase_directory startVotingPhase_directory
      calculateResults_directory showScoreboard_directory advanceRound_directory
      syncGameStateToPlayer_directory)

lemma intervalTick_directory:
  "lobbies (intervalTick i h s) = lobbies s \<and> gameImages (intervalTick i h s) = gameImages s"
  by (simp add: intervalTick_def runCallback_directory prim_defs split: option.splits)

lemma onCastVote_directory:
  "lobbies (onCastVote c u v s) = lobbies s \<and> gameImages (onCastVote c u v s) = gameImages s"
  by (simp add: onCastVote_def prim_defs split: option.splits)

lemma onRestartGame_directory:
  "lobbies (onRestartGame sid c s) = lobbies s \<and> gameImages (onRestartGame sid c s) = gameImages s"
  by (simp add: onRestartGame_def prim_defs split: option.splits)










subsection \<open>The catalog holds each image once\<close>

lemma loadImages_distinct:
  "distinct fs \<Longrightarrow> distinct (gameImages (loadImages (Some fs) s))"
  by (simp add: loadImages_def distinct_map inj_on_def)

lemma loadImages_failed: "gameImages (loadImages None s) = []"
  by (simp add: loadImages_def)

lemma sweepEntry_gameImages: "gameImages (sweepEntry now s e) = gameImages s"
  by (simp add: sweepEntry_def prim_defs split: option.splits prod.splits)

lemma sweep_gameImages: "gameImages (sweep now s) = gameImages s"
proof -
  have "gameImages (foldl (sweepEntry now) s es) = gameImages s" for es
    by (induction es arbitrary: s) (simp_all add: sweepEntry_gameImages)
  then show ?thesis by (simp add: sweep_def)
qed

lemma exec_catalog:
  assumes "distinct (gameImages s)" and "distinctListings [inp]"
  shows "distinct (gameImages (exec inp s))"
proof (cases inp)
  case (LoadImages files)
  with assms(2) show ?thesis
    by (cases files) (simp_all add: exec_def distinctListings_def loadImages_distinct, simp add: loadImages_def)
next
  case (TimeoutDue i k)
  with assms(1) show ?thesis
    by (simp add: exec_def runCallback_directory)
next
  case (Sweep now)
  with assms(1) show ?thesis
    by (simp add: exec_def sweep_gameImages)
qed (use assms(1) in \<open>simp_all add: exec_def createLobby_def joinLobby_def connection_def
      onJoinLobby_def onLeaveLobby_def onStartGame_def onDisconnect_def prim_defs
      onCastVote_directory onRestartGame_directory syncGameStateToPlayer_directory
      intervalTick_directory split: option.splits\<close>)

lemma reachable_catalog:
  assumes "distinctListings inps"
  shows "distinct (gameImages (run inps initialServer))"
proof -
  have step: "distinct (gameImages s) \<Longrightarrow> distinctListings inps \<Longrightarrow>
      distinct (gameImages (run inps s))" for s
    unfolding run_def
  proof (induction inps arbitrary: s)
    case Nil
    then show ?case by simp
  next
    case (Cons inp inps)
    from Cons.prems(2) have "distinctListings [inp]" and "distinctListings inps"
      by (simp_all add: distinctListings_def)
    with Cons.IH [OF exec_catalog [OF Cons.prems(1)]] show ?case
      by simp
  qed
  have "distinct (gameImages initialServer)"
    by (simp add: initialServer_def)
  from step [OF this assms] show ?thesis .
qed

subsection \<open>Participants of a session have a score\<close>

lemmas scored_defs = participantsScored_def numeric_def prim_defs

lemma numeric_foldl_awardPoint:
  "numeric (sc u) \<Longrightarrow> \<forall>p \<in> set ps. numeric (sc (username p)) \<Longrightarrow>
   numeric (foldl (awardPoint m vs) sc ps u)"
proof (induction ps arbitrary: sc)
  case Nil
  then show ?case by simp
next
  case (Cons p ps)
  have 1: "numeric (awardPoint m vs sc p w)" if "numeric (sc w)" for w
    using that Cons.prems(2)
    by (auto simp: awardPoint_def numeric_def split: option.splits jsnum.splits)
  show ?case
    using Cons.prems by (auto intro!: Cons.IH 1)
qed

lemma numeric_awardPoints:
  "\<forall>p \<in> set ps. numeric (sc (username p)) \<Longrightarrow> q \<in> set ps \<Longrightarrow>
   numeric (awardPoints mo vs ps sc (username q))"
  by (auto simp: awardPoints_def numeric_foldl_awardPoint split: option.splits)


lemma startTimer_scored: "participantsScored s \<Longrightarrow> participantsScored (startTimer c n cb s)"
  by (auto simp: scored_defs startTimer_def split: option.splits if_splits)

lemma endGame_scored: "participantsScored s \<Longrightarrow> participantsScored (endGame c s)"
  by (auto simp: scored_defs endGame_def split: option.splits if_splits)





































section \<open>Tally and majority\<close>

lemma foldl_countVote:
  "foldl (countVote vs) vr ps =
     \<lparr>overrated = overrated vr + length (connectedVotes ''overrated'' ps vs),
      fairlyRated = fairlyRated vr + length (connectedVotes ''fairlyRated'' ps vs),
      underrated = underrated vr + length (connectedVotes ''underrated'' ps vs)\<rparr>"
proof (induction ps arbitrary: vr)
  case Nil
  show ?case by (simp add: connectedVotes_def)
next
  case (Cons p ps)
  show ?case
    unfolding foldl_Cons Cons.IH
    by (simp add: countVote_def connectedVotes_def Let_def)
qed

lemma countVotes_exact:
  "countVotes ps vs =
     \<lparr>overrated = length (connectedVotes ''overrated'' ps vs),
      fairlyRated = length (connectedVotes ''fairlyRated'' ps vs),
      underrated = length (connectedVotes ''underrated'' ps vs)\<rparr>"
  by (simp add: countVotes_def foldl_countVote)

lemma determineMajority_strict: "determineMajority vr = strictlyHighest vr"
  by (auto simp: determineMajority_def strictlyHighest_def entries_def)

text \<open>A tie for the highest count leaves no majority, whichever pair ties.\<close>

lemma tie_no_majority:
  assumes "(overrated vr = fairlyRated vr \<and> underrated vr \<le> overrated vr)
         \<or> (overrated vr = underrated vr \<and> fairlyRated vr \<le> overrated vr)
         \<or> (fairlyRated vr = underrated vr \<and> overrated vr \<le> fairlyRated vr)"
  shows "determineMajority vr = None"
  using assms by (auto simp: determineMajority_strict strictlyHighest_def)

text \<open>A disconnected participant's stored vote is counted in no category.\<close>

lemma disconnected_not_counted:
  "\<not> connected p \<Longrightarrow> countVotes (ps @ p # qs) vs = countVotes (ps @ qs) vs"
  by (simp add: countVotes_exact connectedVotes_def)

lemma calculateResults_object:
  assumes "getGameState s c = Some (r, g)" and "lobbies s c = Some l"
  shows "getGameState (calculateResults c s) c =
     Some (r, g\<lparr>voteResults := countVotes (participants l) (votes g),
             scores := awardPoints (determineMajority (countVotes (participants l) (votes g)))
                         (votes g) (participants l) (scores g),
             phase := ''results''\<rparr>)"
  using assms
  by (simp add: calculateResults_def Let_def setObject_def emit_def setTimeout_def
      getGameState_def split: option.splits)

lemma calculateResults_emitted:
  assumes "getGameState s c = Some (r, g)" and "lobbies s c = Some l"
  shows "emitted (calculateResults c s) =
     emitted s @
       [(Room c, GamePhaseUpdate ''results'' None),
        (Room c, RoundResults (countVotes (participants l) (votes g))
                   (determineMajority (countVotes (participants l) (votes g)))
                   (currentImage g))]"
  using assms
  by (simp add: calculateResults_def Let_def setObject_def emit_def setTimeout_def)

text \<open>
  Claim C1. When the voting timer expires (\<open>calculateResults\<close> runs for a lobby that
  has a session), the stored and broadcast per-category counts are the numbers of
  connected participants whose recorded vote is that category, so a disconnected
  participant's stored vote is counted nowhere; and the broadcast majority is the
  category whose count is strictly above both others, and none when no category is
  strictly highest (a tie for the top, or no counted vote at all).
\<close>

theorem calculateResults_tally:
  assumes "getGameState s c = Some (r, g)" and "lobbies s c = Some l"
  shows "map_option voteResults (session (calculateResults c s) c) =
           Some \<lparr>overrated = length (connectedVotes ''overrated'' (participants l) (votes g)),
                 fairlyRated = length (connectedVotes ''fairlyRated'' (participants l) (votes g)),
                 underrated = length (connectedVotes ''underrated'' (participants l) (votes g))\<rparr>
       \<and> last (emitted (calculateResults c s)) =
           (Room c, RoundResults (countVotes (participants l) (votes g))
                      (strictlyHighest (countVotes (participants l) (votes g)))
                      (currentImage g))"
proof -
  have "session (calculateResults c s) c =
          Some (g\<lparr>voteResults := countVotes (participants l) (votes g),
             scores := awardPoints (determineMajority (countVotes (participants l) (votes g)))
                         (votes g) (participants l) (scores g),
             phase := ''results''\<rparr>)"
    by (simp add: session_def calculateResults_object [OF assms])
  then have "map_option voteResults (session (calculateResults c s) c) =
          Some (countVotes (participants l) (votes g))"
    by simp
  moreover have "last (emitted (calculateResults c s)) =
           (Room c, RoundResults (countVotes (participants l) (votes g))
                      (strictlyHighest (countVotes (participants l) (votes g)))
                      (currentImage g))"
    by (simp add: calculateResults_emitted [OF assms] determineMajority_strict)
  ultimately show ?thesis
    by (simp add: countVotes_exact)
qed

text \<open>
  Witness for C1 on the example lobby: bob's \<open>overrated\<close> vote is stored but he is
  disconnected, so \<open>overrated\<close> counts 2, not 3.
\<close>

theorem calculateResults_tally_witness:
  "getGameState votingServer ''ABC123'' = Some (0, votingState)
   \<and> lobbies votingServer ''ABC123'' = Some exampleLobby
   \<and> map_option voteResults (session (calculateResults ''ABC123'' votingServer) ''ABC123'') =
        Some \<lparr>overrated = 2, fairlyRated = 1, underrated = 0\<rparr>
   \<and> last (emitted (calculateResults ''ABC123'' votingServer)) =
        (Room ''ABC123'',
         RoundResults \<lparr>overrated = 2, fairlyRated = 1, underrated = 0\<rparr> (Some ''overrated'')
           (Some ''/images/e.png''))"
proof -
  have g: "getGameState votingServer ''ABC123'' = Some (0, votingState)"
    by (simp add: getGameState_def votingServer_def)
  have l: "lobbies votingServer ''ABC123'' = Some exampleLobby"
    by (simp add: votingServer_def)
  have n1: "length (connectedVotes ''overrated'' (participants exampleLobby) (votes votingState)) = 2"
    and n2: "length (connectedVotes ''fairlyRated'' (participants exampleLobby) (votes votingState)) = 1"
    and n3: "length (connectedVotes ''underrated'' (participants exampleLobby) (votes votingState)) = 0"
    by (simp_all add: connectedVotes_def exampleLobby_def votingState_def)
  have m: "strictlyHighest \<lparr>overrated = 2, fairlyRated = 1, underrated = 0\<rparr> = Some ''overrated''"
    by (simp add: strictlyHighest_def)
  have i: "currentImage votingState = Some ''/images/e.png''"
    by (simp add: votingState_def)
  from calculateResults_tally [OF g l] show ?thesis
    unfolding countVotes_exact n1 n2 n3 m i using g l by simp
qed

section \<open>Scoring\<close>

lemma foldl_awardPoint:
  "distinct (map username ps) \<Longrightarrow>
   foldl (awardPoint m vs) sc ps u =
     (if u \<in> username ` set ps \<and> vs u = Some m then Some (increment (sc u)) else sc u)"
proof (induction ps arbitrary: sc)
  case Nil
  show ?case by simp
next
  case (Cons p ps)
  then show ?case by (auto simp: awardPoint_def)
qed

lemma awardPoints_Some:
  assumes "distinct (map username ps)" and "truthy m"
  shows "awardPoints (Some m) vs ps sc u =
     (if u \<in> username ` set ps \<and> vs u = Some m then Some (increment (sc u)) else sc u)"
  using assms by (simp add: awardPoints_def foldl_awardPoint)

lemma strictlyHighest_truthy: "strictlyHighest vr = Some m \<Longrightarrow> truthy m"
  by (auto simp: strictlyHighest_def truthy_def split: if_splits)

text \<open>
  What the scoring loop does in any state whose participant list holds each username
  once: with a majority category, a participant whose recorded vote equals it,
  connected or not, and whose score entry is a number has the score raised by exactly
  1, and the entry of every username that is not such a participant is unchanged;
  without a majority the score table is unchanged.
\<close>

lemma calculateResults_awards:
  assumes "getGameState s c = Some (r, g)" and "lobbies s c = Some l"
    and "distinct (map username (participants l))"
  shows "\<exists>g'. session (calculateResults c s) c = Some g' \<and>
     (case strictlyHighest (countVotes (participants l) (votes g)) of
        None \<Rightarrow> scores g' = scores g
      | Some m \<Rightarrow>
          (\<forall>p \<in> set (participants l). \<forall>n.
              votes g (username p) = Some m \<and> scores g (username p) = Some (Num n)
                \<longrightarrow> scores g' (username p) = Some (Num (n + 1)))
          \<and> (\<forall>u. \<not> (\<exists>p \<in> set (participants l). username p = u \<and> votes g u = Some m)
                \<longrightarrow> scores g' u = scores g u))"
proof -
  let ?vr = "countVotes (participants l) (votes g)"
  let ?sc = "awardPoints (determineMajority ?vr) (votes g) (participants l) (scores g)"
  let ?g' = "g\<lparr>voteResults := ?vr, scores := ?sc, phase := ''results''\<rparr>"
  have obj: "session (calculateResults c s) c = Some ?g'"
    by (simp add: session_def calculateResults_object [OF assms(1,2)])
  have sel: "scores ?g' = ?sc"
    by simp
  have "case strictlyHighest ?vr of
        None \<Rightarrow> scores ?g' = scores g
      | Some m \<Rightarrow>
          (\<forall>p \<in> set (participants l). \<forall>n.
              votes g (username p) = Some m \<and> scores g (username p) = Some (Num n)
                \<longrightarrow> scores ?g' (username p) = Some (Num (n + 1)))
          \<and> (\<forall>u. \<not> (\<exists>p \<in> set (participants l). username p = u \<and> votes g u = Some m)
                \<longrightarrow> scores ?g' u = scores g u)"
  proof (cases "strictlyHighest ?vr")
    case None
    then show ?thesis
      unfolding sel by (simp add: determineMajority_strict awardPoints_def)
  next
    case (Some m)
    have sc: "?sc u = (if u \<in> username ` set (participants l) \<and> votes g u = Some m
                       then Some (increment (scores g u)) else scores g u)" for u
      using Some awardPoints_Some [OF assms(3) strictlyHighest_truthy [OF Some]]
      by (simp add: determineMajority_strict)
    show ?thesis
      unfolding Some option.case sel sc by auto
  qed
  with obj show ?thesis by blast
qed

text \<open>
  On the example lobby the majority is \<open>overrated\<close>; alice, carol and the disconnected
  bob gain a point, dave (who voted \<open>fairlyRated\<close>) and the stale entry of zed keep
  their scores.
\<close>

lemma calculateResults_awards_example:
  "getGameState votingServer ''ABC123'' = Some (0, votingState)
   \<and> lobbies votingServer ''ABC123'' = Some exampleLobby
   \<and> distinct (map username (participants exampleLobby))
   \<and> (\<exists>g'. session (calculateResults ''ABC123'' votingServer) ''ABC123'' = Some g'
          \<and> scores g' ''alice'' = Some (Num 3) \<and> scores g' ''bob'' = Some (Num 2)
          \<and> scores g' ''carol'' = Some (Num 2) \<and> scores g' ''dave'' = Some (Num 0)
          \<and> scores g' ''zed'' = Some (Num 1))"
proof -
  have g: "getGameState votingServer ''ABC123'' = Some (0, votingState)"
    by (simp add: getGameState_def votingServer_def)
  have l: "lobbies votingServer ''ABC123'' = Some exampleLobby"
    by (simp add: votingServer_def)
  have d: "distinct (map username (participants exampleLobby))"
    by (simp add: exampleLobby_def)
  have m: "strictlyHighest (countVotes (participants exampleLobby) (votes votingState))
             = Some ''overrated''"
    by (simp add: countVotes_exact connectedVotes_def strictlyHighest_def
        exampleLobby_def votingState_def)
  from calculateResults_awards [OF g l d] obtain g'
    where s: "session (calculateResults ''ABC123'' votingServer) ''ABC123'' = Some g'"
      and inc: "\<And>p n. p \<in> set (participants exampleLobby) \<Longrightarrow>
                 votes votingState (username p) = Some ''overrated'' \<Longrightarrow>
                 scores votingState (username p) = Some (Num n) \<Longrightarrow>
                 scores g' (username p) = Some (Num (n + 1))"
      and same: "\<And>u. \<not> (\<exists>p \<in> set (participants exampleLobby).
                        username p = u \<and> votes votingState u = Some ''overrated'') \<Longrightarrow>
                 scores g' u = scores votingState u"
    unfolding m option.case by blast
  have "scores g' ''alice'' = Some (Num 3)"
    using inc [of "\<lparr>username = ''alice'', isHost = True, connected = True\<rparr>" 2]
    by (simp add: exampleLobby_def votingState_def)
  moreover have "scores g' ''bob'' = Some (Num 2)"
    using inc [of "\<lparr>username = ''bob'', isHost = False, connected = False\<rparr>" 1]
    by (simp add: exampleLobby_def votingState_def)
  moreover have "scores g' ''carol'' = Some (Num 2)"
    using inc [of "\<lparr>username = ''carol'', isHost = False, connected = True\<rparr>" 1]
    by (simp add: exampleLobby_def votingState_def)
  moreover have "scores g' ''dave'' = Some (Num 0)"
    using same [of "''dave''"] by (simp add: exampleLobby_def votingState_def)
  moreover have "scores g' ''zed'' = Some (Num 1)"
    using same [of "''zed''"] by (simp add: exampleLobby_def votingState_def)
  ultimately show ?thesis
    using g l d s by blast
qed




section \<open>Timers across a restart\<close>

text \<open>
  Claim C3. Restarting a session should cancel every outstanding callback of the
  session. \<open>restart-game\<close> cancels the interval only; pending \<open>setTimeout\<close>
  callbacks stay. Two runs show it. A restart within two seconds of \<open>start-game\<close>
  leaves both round setups pending, and round 1 consumes two images. A restart during
  the results phase leaves \<open>showScoreboard\<close> pending: after the new round 1 has
  entered its discussion phase, the stale callback puts the reset session in phase
  \<open>scoreboard\<close>.
\<close>

theorem restart_keeps_pending_callbacks:
  "map snd (timeouts (run [StartGame 1 ''ABC123'' ''alice'', RestartGame 1 ''ABC123'']
                        preGameServer))
     = [CbStartDiscussionPhase ''ABC123'', CbStartDiscussionPhase ''ABC123'']
   \<and> map_option usedImages
       (session (run [StartGame 1 ''ABC123'' ''alice'', RestartGame 1 ''ABC123'',
                      TimeoutDue 0 0, TimeoutDue 0 0] preGameServer) ''ABC123'')
     = Some [0, 1]
   \<and> map_option roundNumber
       (session (run [StartGame 1 ''ABC123'' ''alice'', RestartGame 1 ''ABC123'',
                      TimeoutDue 0 0, TimeoutDue 0 0] preGameServer) ''ABC123'')
     = Some 1
   \<and> map snd (timeouts (run [IntervalDue 5 0, RestartGame 1 ''ABC123''] votingServer))
     = [CbShowScoreboard ''ABC123'', CbStartDiscussionPhase ''ABC123'']
   \<and> map_option phase
       (session (run [IntervalDue 5 0, RestartGame 1 ''ABC123'', TimeoutDue 1 0]
                   votingServer) ''ABC123'')
     = Some ''discussion''
   \<and> map_option phase
       (session (run [IntervalDue 5 0, RestartGame 1 ''ABC123'', TimeoutDue 1 0,
                      TimeoutDue 0 0] votingServer) ''ABC123'')
     = Some ''scoreboard''
   \<and> map_option roundNumber
       (session (run [IntervalDue 5 0, RestartGame 1 ''ABC123'', TimeoutDue 1 0,
                      TimeoutDue 0 0] votingServer) ''ABC123'')
     = Some 1"
  by (simp add: run_def handler_defs preGameServer_def preGameLobby_def example_defs)

section \<open>The round number\<close>



lemma startDiscussionPhase_round_bound:
  assumes "getGameState s c = Some (r, g)"
    and "getGameState (startDiscussionPhase i c s) c = Some (r, g')"
    and "usedImages g' \<noteq> usedImages g"
  shows "roundNumber g' \<le> totalRounds g'"
  using assms
  by (auto simp: startDiscussionPhase_def startTimer_def endGame_def prim_defs
      split: option.splits if_splits)









section \<open>Casting votes\<close>

lemma onCastVote_outside_voting:
  assumes "getGameState s c = Some (r, g)" and "phase g \<noteq> ''voting''"
  shows "onCastVote c u v s = s"
  using assms by (simp add: onCastVote_def)

lemma onCastVote_no_session:
  "getGameState s c = None \<Longrightarrow> onCastVote c u v s = s"
  by (simp add: onCastVote_def)

lemma onCastVote_first_vote_final:
  assumes "getGameState s c = Some (r, g)" and "votes g u = Some w" and "w \<noteq> []"
  shows "onCastVote c u v s = s"
  using assms by (simp add: onCastVote_def hasVoted_def truthy_def)

lemma onCastVote_records:
  assumes "getGameState s c = Some (r, g)" and "phase g = ''voting''" and "votes g u = None"
  shows "storedVote (onCastVote c u v s) c u = Some v"
  using assms
  by (simp add: onCastVote_def hasVoted_def storedVote_def session_def getGameState_def
      setObject_def split: option.splits)

text \<open>
  Claim C5. A vote is recorded only in the voting phase and a stored non-empty vote is
  final (the lemmas above). The claim as a whole fails at a stored empty vote: the
  guard \<open>!gameState.votes[username]\<close> takes it for no vote, so erin's recorded empty
  vote is replaced by a later \<open>overrated\<close> in the same round.
\<close>

theorem onCastVote_falsy_vote_replaced:
  "storedVote votingServer ''ABC123'' ''erin'' = None
   \<and> storedVote (onCastVote ''ABC123'' ''erin'' [] votingServer) ''ABC123'' ''erin'' = Some []
   \<and> storedVote (onCastVote ''ABC123'' ''erin'' ''overrated''
         (onCastVote ''ABC123'' ''erin'' [] votingServer)) ''ABC123'' ''erin'' = Some ''overrated''"
  by (simp add: storedVote_def session_def onCastVote_def getGameState_def setObject_def
      hasVoted_def truthy_def votingServer_def votingState_def)

section \<open>Round setup\<close>

lemma indexOf_nth:
  "distinct xs \<Longrightarrow> k < length xs \<Longrightarrow> indexOf xs (xs ! k) = int k"
proof (induction xs arbitrary: k)
  case Nil
  then show ?case by simp
next
  case (Cons x xs)
  show ?case
  proof (cases k)
    case 0
    then show ?thesis by simp
  next
    case (Suc j)
    with Cons.prems have "j < length xs" and "xs ! j \<noteq> x" and "distinct xs"
      by auto
    with Cons.IH [of j] Suc show ?thesis
      by (simp add: Let_def)
  qed
qed

lemma availableImages_element:
  assumes "element (availableImages imgs used) i = Some img"
  shows "\<exists>k < length imgs. imgs ! k = img \<and> int k \<notin> set used"
proof -
  from assms have "img \<in> set (availableImages imgs used)"
    by (auto simp: element_def split: if_splits)
  then obtain k where "(k, img) \<in> set (enumerate 0 imgs)" and "int k \<notin> set used"
    by (auto simp: availableImages_def)
  then show ?thesis
    by (auto simp: in_set_enumerate_eq)
qed

lemma startDiscussionPhase_object:
  assumes "getGameState s c = Some (r, g)" and "lobbies s c = Some l"
    and "element (availableImages (gameImages s) (usedImages g)) randomIndex = Some img"
    and "roundNumber g \<le> totalRounds g"
  shows "getGameState (startDiscussionPhase randomIndex c s) c =
     Some (r, g\<lparr>currentImage := Some img,
                usedImages := usedImages g @ [indexOf (gameImages s) img],
                phase := ''discussion'', votes := Map.empty, timer := 60,
                timerInterval := Some (nextHandle s)\<rparr>)"
proof -
  from assms(3) have "availableImages (gameImages s) (usedImages g) \<noteq> []"
    by (auto simp: element_def split: if_splits)
  with assms show ?thesis
    by (simp add: startDiscussionPhase_def startTimer_def getGameState_def setObject_def
        clearInterval_def emit_def Let_def split: option.splits)
qed

text \<open>
  Claim C6. With a catalog that holds each image once, a round setup that starts a
  round selects an image whose catalog index is not in the used-index set of the
  session, appends exactly that index to the set, and leaves the catalog as it is.
  The set is otherwise only emptied, by a restart (lemmas exec_session and
  run_without_restart: every other step only appends to it); so within a session an
  index once recorded is not selected again. The catalog of every reachable state
  holds each image once, the listings of the image directory holding each file name
  once (lemma reachable_catalog).
\<close>

theorem startDiscussionPhase_unused_image:
  assumes "getGameState s c = Some (r, g)" and "lobbies s c = Some l"
    and "distinct (gameImages s)"
    and "randomIndex < length (availableImages (gameImages s) (usedImages g))"
    and "roundNumber g \<le> totalRounds g"
  shows "\<exists>k g'. session (startDiscussionPhase randomIndex c s) c = Some g'
     \<and> k < length (gameImages s) \<and> int k \<notin> set (usedImages g)
     \<and> currentImage g' = Some (gameImages s ! k)
     \<and> usedImages g' = usedImages g @ [int k]
     \<and> gameImages (startDiscussionPhase randomIndex c s) = gameImages s"
proof -
  let ?avail = "availableImages (gameImages s) (usedImages g)"
  from assms(4) have el: "element ?avail randomIndex = Some (?avail ! randomIndex)"
    by (simp add: element_def)
  from availableImages_element [OF el] obtain k
    where k: "k < length (gameImages s)" "gameImages s ! k = ?avail ! randomIndex"
      "int k \<notin> set (usedImages g)"
    by blast
  have ix: "indexOf (gameImages s) (?avail ! randomIndex) = int k"
    using indexOf_nth [OF assms(3) k(1)] k(2) by simp
  have "gameImages (startDiscussionPhase randomIndex c s) = gameImages s"
    using assms(1,2)
    by (simp add: startDiscussionPhase_def startTimer_def endGame_def getGameState_def
        setObject_def clearInterval_def emit_def Let_def split: option.splits)
  with startDiscussionPhase_object [OF assms(1,2) el assms(5)] k ix show ?thesis
    by (simp add: session_def)
qed

text \<open>
  Witness for C6: in the example lobby images 2, 0 and 4 are used, images 1, 3 and 5
  are available; with random index 1 round setup selects image 3.
\<close>

theorem startDiscussionPhase_unused_image_witness:
  "getGameState votingServer ''ABC123'' = Some (0, votingState)
   \<and> lobbies votingServer ''ABC123'' = Some exampleLobby
   \<and> distinct (gameImages votingServer)
   \<and> 1 < length (availableImages (gameImages votingServer) (usedImages votingState))
   \<and> roundNumber votingState \<le> totalRounds votingState
   \<and> (\<exists>k g'. session (startDiscussionPhase 1 ''ABC123'' votingServer) ''ABC123'' = Some g'
          \<and> k < 6 \<and> int k \<notin> {2, 0, 4}
          \<and> currentImage g' = Some (gameImages votingServer ! k)
          \<and> usedImages g' = [2, 0, 4, int k])
   \<and> map_option usedImages (session (startDiscussionPhase 1 ''ABC123'' votingServer) ''ABC123'')
        = Some [2, 0, 4, 3]
   \<and> map_option currentImage (session (startDiscussionPhase 1 ''ABC123'' votingServer) ''ABC123'')
        = Some (Some ''/images/d.png'')"
proof -
  have g: "getGameState votingServer ''ABC123'' = Some (0, votingState)"
    by (simp add: getGameState_def votingServer_def)
  have l: "lobbies votingServer ''ABC123'' = Some exampleLobby"
    and d: "distinct (gameImages votingServer)"
    and n: "length (gameImages votingServer) = 6"
    by (simp_all add: votingServer_def)
  have u: "usedImages votingState = [2, 0, 4]"
    and r: "roundNumber votingState \<le> totalRounds votingState"
    by (simp_all add: votingState_def)
  have a: "1 < length (availableImages (gameImages votingServer) (usedImages votingState))"
    by (simp add: availableImages_def votingServer_def votingState_def)
  from startDiscussionPhase_unused_image [OF g l d a r]
  have 1: "\<exists>k g'. session (startDiscussionPhase 1 ''ABC123'' votingServer) ''ABC123'' = Some g'
          \<and> k < 6 \<and> int k \<notin> {2, 0, 4}
          \<and> currentImage g' = Some (gameImages votingServer ! k)
          \<and> usedImages g' = [2, 0, 4, int k]"
    unfolding n u by auto
  have 2: "map_option usedImages
             (session (startDiscussionPhase 1 ''ABC123'' votingServer) ''ABC123'')
           = Some [2, 0, 4, 3]"
    and 3: "map_option currentImage
             (session (startDiscussionPhase 1 ''ABC123'' votingServer) ''ABC123'')
           = Some (Some ''/images/d.png'')"
    by (simp_all add: handler_defs example_defs)
  from g l d a r 1 2 3 show ?thesis
    by blast
qed

section \<open>Starting a game\<close>

lemma onStartGame_rejected:
  "\<not> hostWithEnoughPlayers s c u \<Longrightarrow> onStartGame sid c u s = s"
  by (auto simp: onStartGame_def hostWithEnoughPlayers_def split: option.splits)

lemma onStartGame_no_images:
  "hostWithEnoughPlayers s c u \<Longrightarrow> gameImages s = [] \<Longrightarrow>
   onStartGame sid c u s = emit (ToSocket sid) (ErrorMessage noImagesMessage) s"
  by (auto simp: onStartGame_def hostWithEnoughPlayers_def split: option.splits)

lemma onStartGame_started:
  assumes "lobbies s c = Some l" and "host l = u" and "2 \<le> length (participants l)"
    and "gameImages s \<noteq> []"
  shows "onStartGame sid c u s =
     s\<lparr>lobbies := (lobbies s)(c \<mapsto> l\<lparr>gameStarted := True\<rparr>),
       heap := (heap s)(nextRef s \<mapsto> newSession (participants l)),
       nextRef := Suc (nextRef s),
       gameStates := (gameStates s)(c \<mapsto> nextRef s),
       timeouts := timeouts s @ [(2000, CbStartDiscussionPhase c)],
       emitted := emitted s @
         [(Room c, GameStarted (l\<lparr>gameStarted := True\<rparr>) (newSession (participants l)))]\<rparr>"
  using assms
  by (simp add: onStartGame_def newSession_def emit_def setTimeout_def Let_def)

text \<open>
  Claim C7. A \<open>start-game\<close> request creates a session (and marks the lobby started)
  when it names the host of an existing lobby with at least two participants and the
  catalog is not empty. With the catalog empty, the only effect is an error event to
  the requesting socket. In every other case nothing changes and nothing is sent.
\<close>

theorem onStartGame_preconditions:
  "(hostWithEnoughPlayers s c u \<and> gameImages s \<noteq> [] \<longrightarrow>
      (\<exists>l. lobbies s c = Some l
         \<and> lobbies (onStartGame sid c u s) c = Some (l\<lparr>gameStarted := True\<rparr>)
         \<and> gameStates (onStartGame sid c u s) c = Some (nextRef s)
         \<and> heap (onStartGame sid c u s) (nextRef s) = Some (newSession (participants l))))
   \<and> (hostWithEnoughPlayers s c u \<and> gameImages s = [] \<longrightarrow>
        onStartGame sid c u s = emit (ToSocket sid) (ErrorMessage noImagesMessage) s)
   \<and> (\<not> hostWithEnoughPlayers s c u \<longrightarrow> onStartGame sid c u s = s)"
proof (intro conjI impI)
  assume a: "hostWithEnoughPlayers s c u \<and> gameImages s \<noteq> []"
  then obtain l where l: "lobbies s c = Some l" "host l = u" "2 \<le> length (participants l)"
    by (auto simp: hostWithEnoughPlayers_def split: option.splits)
  from a have "gameImages s \<noteq> []" by simp
  from onStartGame_started [OF l this, of sid] l(1)
  show "\<exists>l. lobbies s c = Some l
         \<and> lobbies (onStartGame sid c u s) c = Some (l\<lparr>gameStarted := True\<rparr>)
         \<and> gameStates (onStartGame sid c u s) c = Some (nextRef s)
         \<and> heap (onStartGame sid c u s) (nextRef s) = Some (newSession (participants l))"
    by simp
next
  assume "hostWithEnoughPlayers s c u \<and> gameImages s = []"
  then show "onStartGame sid c u s = emit (ToSocket sid) (ErrorMessage noImagesMessage) s"
    by (simp add: onStartGame_no_images)
next
  assume "\<not> hostWithEnoughPlayers s c u"
  then show "onStartGame sid c u s = s"
    by (rule onStartGame_rejected)
qed

text \<open>Witness for C7: the three cases on the lobby before the game.\<close>

theorem onStartGame_preconditions_witness:
  "hostWithEnoughPlayers preGameServer ''ABC123'' ''alice''
   \<and> gameImages preGameServer \<noteq> []
   \<and> gameStates preGameServer ''ABC123'' = None
   \<and> map_option gameStarted (lobbies (onStartGame 1 ''ABC123'' ''alice'' preGameServer) ''ABC123'')
        = Some True
   \<and> map_option phase (session (onStartGame 1 ''ABC123'' ''alice'' preGameServer) ''ABC123'')
        = Some ''discussion''
   \<and> hostWithEnoughPlayers (preGameServer\<lparr>gameImages := []\<rparr>) ''ABC123'' ''alice''
   \<and> onStartGame 1 ''ABC123'' ''alice'' (preGameServer\<lparr>gameImages := []\<rparr>) =
        emit (ToSocket 1) (ErrorMessage noImagesMessage) (preGameServer\<lparr>gameImages := []\<rparr>)
   \<and> \<not> hostWithEnoughPlayers preGameServer ''ABC123'' ''bob''
   \<and> onStartGame 2 ''ABC123'' ''bob'' preGameServer = preGameServer"
proof -
  have h1: "hostWithEnoughPlayers preGameServer ''ABC123'' ''alice''"
    and h2: "hostWithEnoughPlayers (preGameServer\<lparr>gameImages := []\<rparr>) ''ABC123'' ''alice''"
    and h3: "\<not> hostWithEnoughPlayers preGameServer ''ABC123'' ''bob''"
    by (simp_all add: hostWithEnoughPlayers_def preGameServer_def preGameLobby_def)
  have i: "gameImages preGameServer \<noteq> []" and n: "gameStates preGameServer ''ABC123'' = None"
    and l: "lobbies preGameServer ''ABC123'' = Some preGameLobby"
    by (simp_all add: preGameServer_def)
  note t = onStartGame_preconditions
  from t [of preGameServer "''ABC123''" "''alice''" 1] h1 i l
  have a: "lobbies (onStartGame 1 ''ABC123'' ''alice'' preGameServer) ''ABC123''
             = Some (preGameLobby\<lparr>gameStarted := True\<rparr>)"
    and b: "gameStates (onStartGame 1 ''ABC123'' ''alice'' preGameServer) ''ABC123'' = Some (nextRef preGameServer)"
    and c: "heap (onStartGame 1 ''ABC123'' ''alice'' preGameServer) (nextRef preGameServer) =
              Some (newSession (participants preGameLobby))"
    by auto
  have d: "map_option phase (session (onStartGame 1 ''ABC123'' ''alice'' preGameServer) ''ABC123'')
        = Some ''discussion''"
    using b c by (simp add: session_def getGameState_def newSession_def)
  from t [of "preGameServer\<lparr>gameImages := []\<rparr>" "''ABC123''" "''alice''" 1] h2
  have e: "onStartGame 1 ''ABC123'' ''alice'' (preGameServer\<lparr>gameImages := []\<rparr>) =
        emit (ToSocket 1) (ErrorMessage noImagesMessage) (preGameServer\<lparr>gameImages := []\<rparr>)"
    by simp
  from t [of preGameServer "''ABC123''" "''bob''" 2] h3
  have f: "onStartGame 2 ''ABC123'' ''bob'' preGameServer = preGameServer"
    by simp
  from h1 h2 h3 i n a d e f show ?thesis by simp
qed

section \<open>Disconnection and the sweep\<close>

lemma onLeaveLobby_active:
  assumes "lobbies s c = Some l" and "sessionActive s c"
    and "findParticipant (participants l) u = Some p"
  shows "onLeaveLobby now c u s =
     emit (Room c) (LobbyUpdated (l\<lparr>participants := setConnected u False (participants l)\<rparr>))
       (s\<lparr>lobbies := (lobbies s)(c \<mapsto> l\<lparr>participants := setConnected u False (participants l)\<rparr>),
          disconnectedPlayers := AList.update u (c, now) (disconnectedPlayers s)\<rparr>)"
  using assms by (simp add: onLeaveLobby_def Let_def)

lemma onDisconnect_active:
  assumes "sockets s sid = Some sock" and "sock_lobbyCode sock = Some c"
    and "sock_username sock = Some u" and "c \<noteq> []" and "u \<noteq> []"
    and "lobbies s c = Some l" and "sessionActive s c"
    and "findParticipant (participants l) u = Some p"
  shows "onDisconnect now sid s =
     (emit (Room c) (LobbyUpdated (l\<lparr>participants := setConnected u False (participants l)\<rparr>))
       (s\<lparr>lobbies := (lobbies s)(c \<mapsto> l\<lparr>participants := setConnected u False (participants l)\<rparr>),
          disconnectedPlayers := AList.update u (c, now) (disconnectedPlayers s)\<rparr>))
       \<lparr>sockets := (sockets s)(sid := None)\<rparr>"
  using assms by (simp add: onDisconnect_def Let_def truthy_def emit_def)

text \<open>
  Claim C8, amended. When a participant leaves (\<open>leave-lobby\<close>) or the socket of a
  participant disconnects while the lobby has a session whose phase is not
  \<open>waiting\<close>, the participant stays in the list, is marked disconnected, and a
  disconnection record with the lobby code and the current time is stored. The sweep
  removes from a lobby's list exactly the participants that have a record for that
  lobby older than 300000 milliseconds.
\<close>

theorem disconnect_grace_period:
  "(lobbies s c = Some l \<and> sessionActive s c \<and> findParticipant (participants l) u = Some p \<longrightarrow>
      (\<exists>l'. lobbies (onLeaveLobby now c u s) c = Some l'
         \<and> map username (participants l') = map username (participants l)
         \<and> findParticipant (participants l') u = Some (p\<lparr>connected := False\<rparr>)
         \<and> map_of (disconnectedPlayers (onLeaveLobby now c u s)) u = Some (c, now)))
   \<and> (sockets s sid = Some sock \<and> sock_lobbyCode sock = Some c \<and> sock_username sock = Some u
        \<and> c \<noteq> [] \<and> u \<noteq> []
        \<and> lobbies s c = Some l \<and> sessionActive s c
        \<and> findParticipant (participants l) u = Some p \<longrightarrow>
      (\<exists>l'. lobbies (onDisconnect now sid s) c = Some l'
         \<and> map username (participants l') = map username (participants l)
         \<and> findParticipant (participants l') u = Some (p\<lparr>connected := False\<rparr>)
         \<and> map_of (disconnectedPlayers (onDisconnect now sid s)) u = Some (c, now)))
   \<and> (lobbies s c = Some l \<longrightarrow>
      (\<exists>l'. lobbies (sweep now s) c = Some l'
         \<and> participants l' =
             filter (\<lambda>q. \<not> sweptFrom now (disconnectedPlayers s) c (username q))
               (participants l)))"
proof (intro conjI impI)
  assume a: "lobbies s c = Some l \<and> sessionActive s c
    \<and> findParticipant (participants l) u = Some p"
  then have l: "lobbies s c = Some l" and act: "sessionActive s c"
    and p: "findParticipant (participants l) u = Some p"
    by simp_all
  show "\<exists>l'. lobbies (onLeaveLobby now c u s) c = Some l'
         \<and> map username (participants l') = map username (participants l)
         \<and> findParticipant (participants l') u = Some (p\<lparr>connected := False\<rparr>)
         \<and> map_of (disconnectedPlayers (onLeaveLobby now c u s)) u = Some (c, now)"
    unfolding onLeaveLobby_active [OF l act p]
    by (simp add: emit_def setConnected_usernames setConnected_find [OF p] update_Some_unfold)
next
  assume a: "sockets s sid = Some sock \<and> sock_lobbyCode sock = Some c
    \<and> sock_username sock = Some u \<and> c \<noteq> [] \<and> u \<noteq> []
    \<and> lobbies s c = Some l \<and> sessionActive s c
    \<and> findParticipant (participants l) u = Some p"
  then have k: "sockets s sid = Some sock" "sock_lobbyCode sock = Some c"
      "sock_username sock = Some u" "c \<noteq> []" "u \<noteq> []"
    and l: "lobbies s c = Some l" and act: "sessionActive s c"
    and p: "findParticipant (participants l) u = Some p"
    by simp_all
  show "\<exists>l'. lobbies (onDisconnect now sid s) c = Some l'
         \<and> map username (participants l') = map username (participants l)
         \<and> findParticipant (participants l') u = Some (p\<lparr>connected := False\<rparr>)
         \<and> map_of (disconnectedPlayers (onDisconnect now sid s)) u = Some (c, now)"
    unfolding onDisconnect_active [OF k l act p]
    by (simp add: emit_def setConnected_usernames setConnected_find [OF p] update_Some_unfold)
next
  assume "lobbies s c = Some l"
  then show "\<exists>l'. lobbies (sweep now s) c = Some l'
         \<and> participants l' =
             filter (\<lambda>q. \<not> sweptFrom now (disconnectedPlayers s) c (username q))
               (participants l)"
    by (simp add: sweep_lobbies)
qed

text \<open>
  Counterexample to C8 as stated: between two rounds of a game in progress the phase is
  \<open>waiting\<close>, and both handlers then treat the session as inactive. Carol's
  disconnect removes her at once, without a record; so does dave's leave; and the
  host's disconnect deletes the lobby and its session.
\<close>

theorem disconnect_between_rounds_removes:
  "map_option phase (session betweenRounds ''ABC123'') = Some ''waiting''
   \<and> map_option roundNumber (session betweenRounds ''ABC123'') = Some 4
   \<and> usernamesOf betweenRounds ''ABC123'' = [''alice'', ''bob'', ''carol'', ''dave'', ''erin'']
   \<and> usernamesOf (exec (Disconnect 3 9000) betweenRounds) ''ABC123''
        = [''alice'', ''bob'', ''dave'', ''erin'']
   \<and> map_of (disconnectedPlayers (exec (Disconnect 3 9000) betweenRounds)) ''carol'' = None
   \<and> usernamesOf (exec (LeaveLobby 4 9000 ''ABC123'' ''dave'') betweenRounds) ''ABC123''
        = [''alice'', ''bob'', ''carol'', ''erin'']
   \<and> lobbies (exec (Disconnect 1 9000) betweenRounds) ''ABC123'' = None
   \<and> gameStates (exec (Disconnect 1 9000) betweenRounds) ''ABC123'' = None"
  by (simp add: betweenRounds_def usernamesOf_def run_def handler_defs example_defs)

text \<open>Witness for C8: carol leaves or disconnects during voting; bob's record is 395 seconds
  old at the first sweep shown and 295 seconds old at the second.\<close>

theorem disconnect_grace_period_witness:
  "lobbies votingServer ''ABC123'' = Some exampleLobby
   \<and> sessionActive votingServer ''ABC123''
   \<and> findParticipant (participants exampleLobby) ''carol''
        = Some \<lparr>username = ''carol'', isHost = False, connected = True\<rparr>
   \<and> sockets votingServer 3
        = Some \<lparr>sock_username = Some ''carol'', sock_lobbyCode = Some ''ABC123''\<rparr>
   \<and> (\<exists>l'. lobbies (onLeaveLobby 9000 ''ABC123'' ''carol'' votingServer) ''ABC123'' = Some l'
         \<and> map username (participants l') = [''alice'', ''bob'', ''carol'', ''dave'', ''erin'']
         \<and> findParticipant (participants l') ''carol''
              = Some \<lparr>username = ''carol'', isHost = False, connected = False\<rparr>
         \<and> map_of (disconnectedPlayers (onLeaveLobby 9000 ''ABC123'' ''carol'' votingServer))
              ''carol'' = Some (''ABC123'', 9000))
   \<and> (\<exists>l'. lobbies (onDisconnect 9000 3 votingServer) ''ABC123'' = Some l'
         \<and> map username (participants l') = [''alice'', ''bob'', ''carol'', ''dave'', ''erin'']
         \<and> findParticipant (participants l') ''carol''
              = Some \<lparr>username = ''carol'', isHost = False, connected = False\<rparr>
         \<and> map_of (disconnectedPlayers (onDisconnect 9000 3 votingServer)) ''carol''
              = Some (''ABC123'', 9000))
   \<and> (\<exists>l'. lobbies (sweep 400000 votingServer) ''ABC123'' = Some l'
         \<and> map username (participants l') = [''alice'', ''carol'', ''dave'', ''erin''])
   \<and> (\<exists>l'. lobbies (sweep 300000 votingServer) ''ABC123'' = Some l'
         \<and> map username (participants l') = [''alice'', ''bob'', ''carol'', ''dave'', ''erin''])"
proof -
  let ?carol = "\<lparr>username = ''carol'', isHost = False, connected = True\<rparr>"
  let ?sock = "\<lparr>sock_username = Some ''carol'', sock_lobbyCode = Some ''ABC123''\<rparr>"
  have l: "lobbies votingServer ''ABC123'' = Some exampleLobby"
    and k: "sockets votingServer 3 = Some ?sock"
    by (simp_all add: votingServer_def)
  have a: "sessionActive votingServer ''ABC123''"
    by (simp add: sessionActive_def getGameState_def votingServer_def votingState_def)
  have p: "findParticipant (participants exampleLobby) ''carol'' = Some ?carol"
    by (simp add: findParticipant_def exampleLobby_def)
  have n: "map username (participants exampleLobby)
             = [''alice'', ''bob'', ''carol'', ''dave'', ''erin'']"
    by (simp add: exampleLobby_def)
  have f4: "filter (\<lambda>q. \<not> sweptFrom 400000 (disconnectedPlayers votingServer) ''ABC123''
                           (username q)) (participants exampleLobby)
            = [\<lparr>username = ''alice'', isHost = True, connected = True\<rparr>,
               \<lparr>username = ''carol'', isHost = False, connected = True\<rparr>,
               \<lparr>username = ''dave'', isHost = False, connected = True\<rparr>,
               \<lparr>username = ''erin'', isHost = False, connected = True\<rparr>]"
    by (simp add: sweptFrom_def recordExpired_def votingServer_def exampleLobby_def)
  have f3: "filter (\<lambda>q. \<not> sweptFrom 300000 (disconnectedPlayers votingServer) ''ABC123''
                           (username q)) (participants exampleLobby)
            = participants exampleLobby"
    by (simp add: sweptFrom_def recordExpired_def votingServer_def exampleLobby_def)
  note t = disconnect_grace_period [of votingServer "''ABC123''" exampleLobby "''carol''" ?carol
      _ 3 ?sock]
  from t [of 9000] l a p
  have 1: "\<exists>l'. lobbies (onLeaveLobby 9000 ''ABC123'' ''carol'' votingServer) ''ABC123'' = Some l'
         \<and> map username (participants l') = [''alice'', ''bob'', ''carol'', ''dave'', ''erin'']
         \<and> findParticipant (participants l') ''carol''
              = Some \<lparr>username = ''carol'', isHost = False, connected = False\<rparr>
         \<and> map_of (disconnectedPlayers (onLeaveLobby 9000 ''ABC123'' ''carol'' votingServer))
              ''carol'' = Some (''ABC123'', 9000)"
    unfolding n by simp
  from t [of 9000] l a p k
  have 2: "\<exists>l'. lobbies (onDisconnect 9000 3 votingServer) ''ABC123'' = Some l'
         \<and> map username (participants l') = [''alice'', ''bob'', ''carol'', ''dave'', ''erin'']
         \<and> findParticipant (participants l') ''carol''
              = Some \<lparr>username = ''carol'', isHost = False, connected = False\<rparr>
         \<and> map_of (disconnectedPlayers (onDisconnect 9000 3 votingServer)) ''carol''
              = Some (''ABC123'', 9000)"
    unfolding n by simp
  from t [of 400000] l
  have 3: "\<exists>l'. lobbies (sweep 400000 votingServer) ''ABC123'' = Some l'
         \<and> map username (participants l') = [''alice'', ''carol'', ''dave'', ''erin'']"
    unfolding f4 by auto
  from t [of 300000] l
  have 4: "\<exists>l'. lobbies (sweep 300000 votingServer) ''ABC123'' = Some l'
         \<and> map username (participants l') = [''alice'', ''bob'', ''carol'', ''dave'', ''erin'']"
    unfolding f3 n [symmetric] by auto
  from l a p k 1 2 3 4 show ?thesis
    by blast
qed

text \<open>
  Neither \<open>join\<close> route deletes a disconnection record. Bob reconnects within the
  grace period and is connected again; the sweep still removes him once the record of
  his earlier disconnect is old enough.
\<close>

lemma sweep_evicts_reconnected:
  "usernamesOf (snd (joinLobby ''ABC123'' ''bob'' votingServer)) ''ABC123''
     = [''alice'', ''bob'', ''carol'', ''dave'', ''erin'']
   \<and> map_option (map connected \<circ> participants)
        (lobbies (snd (joinLobby ''ABC123'' ''bob'' votingServer)) ''ABC123'')
     = Some [True, True, True, True, True]
   \<and> usernamesOf (sweep 400000 (snd (joinLobby ''ABC123'' ''bob'' votingServer))) ''ABC123''
     = [''alice'', ''carol'', ''dave'', ''erin'']"
  by (simp add: usernamesOf_def handler_defs example_defs)

section \<open>Creating lobbies\<close>

lemma createLobby_invalid:
  "invalidUsername u \<Longrightarrow>
   createLobby random36 now u s = (BadRequest ''Username must be at least 2 characters'', s)"
  by (auto simp: createLobby_def invalidUsername_def truthy_def split: option.splits)

lemma createLobby_valid:
  "2 \<le> length name \<Longrightarrow>
   createLobby random36 now (Some name) s =
     (LobbyCreated (generateLobbyCode random36) (newLobby (generateLobbyCode random36) name now),
      s\<lparr>lobbies := (lobbies s)(generateLobbyCode random36 \<mapsto>
                        newLobby (generateLobbyCode random36) name now)\<rparr>)"
  by (auto simp: createLobby_def newLobby_def truthy_def Let_def)

text \<open>
  Claim C9, amended. The create route fails with status 400 exactly when the username
  is absent or shorter than two characters, and then leaves the directory unchanged.
  Otherwise it stores the new lobby under the generated code whatever the directory
  holds: every other entry is kept, an entry with the same code is replaced.
\<close>

theorem createLobby_overwrites:
  "isBadRequest (fst (createLobby random36 now u s)) = invalidUsername u
   \<and> (invalidUsername u \<longrightarrow> snd (createLobby random36 now u s) = s)
   \<and> (\<forall>name. u = Some name \<and> 2 \<le> length name \<longrightarrow>
         fst (createLobby random36 now u s) =
           LobbyCreated (generateLobbyCode random36)
             (newLobby (generateLobbyCode random36) name now)
         \<and> lobbies (snd (createLobby random36 now u s)) =
             (lobbies s)(generateLobbyCode random36 \<mapsto>
                newLobby (generateLobbyCode random36) name now))"
proof (cases "invalidUsername u")
  case True
  then show ?thesis
    by (auto simp: createLobby_invalid isBadRequest_def invalidUsername_def)
next
  case False
  then obtain name where u: "u = Some name" and n: "2 \<le> length name"
    by (auto simp: invalidUsername_def split: option.splits)
  show ?thesis
    unfolding u using n by (simp add: createLobby_valid isBadRequest_def invalidUsername_def)
qed

text \<open>
  Counterexample to C9 as stated: two successful creations that draw the same random
  string get the same code, and the second replaces the first lobby.
\<close>

theorem createLobby_code_collision:
  "lobbies (snd (createLobby ''0.abc123xyz'' 1000 (Some ''alice'') initialServer)) ''ABC123''
     = Some (newLobby ''ABC123'' ''alice'' 1000)
   \<and> fst (createLobby ''0.abc123xyz'' 2000 (Some ''bob'')
            (snd (createLobby ''0.abc123xyz'' 1000 (Some ''alice'') initialServer)))
     = LobbyCreated ''ABC123'' (newLobby ''ABC123'' ''bob'' 2000)
   \<and> lobbies (snd (createLobby ''0.abc123xyz'' 2000 (Some ''bob'')
            (snd (createLobby ''0.abc123xyz'' 1000 (Some ''alice'') initialServer)))) ''ABC123''
     = Some (newLobby ''ABC123'' ''bob'' 2000)"
  by (simp add: createLobby_def generateLobbyCode_def upperChar_def truthy_def newLobby_def
      initialServer_def Let_def)

text \<open>Witness for C9: a rejected username, and an accepted one whose code is taken.\<close>

theorem createLobby_overwrites_witness:
  "invalidUsername (Some ''a'')
   \<and> snd (createLobby ''0.abc123xyz'' 1000 (Some ''a'') votingServer) = votingServer
   \<and> 2 \<le> length ''mallory''
   \<and> lobbies votingServer ''ABC123'' = Some exampleLobby
   \<and> fst (createLobby ''0.abc123xyz'' 9000 (Some ''mallory'') votingServer) =
        LobbyCreated ''ABC123'' (newLobby ''ABC123'' ''mallory'' 9000)
   \<and> lobbies (snd (createLobby ''0.abc123xyz'' 9000 (Some ''mallory'') votingServer)) ''ABC123'' =
        Some (newLobby ''ABC123'' ''mallory'' 9000)"
proof -
  have c: "generateLobbyCode ''0.abc123xyz'' = ''ABC123''"
    by (simp add: generateLobbyCode_def upperChar_def)
  have i: "invalidUsername (Some ''a'')"
    by (simp add: invalidUsername_def)
  have l: "lobbies votingServer ''ABC123'' = Some exampleLobby"
    by (simp add: votingServer_def)
  from createLobby_overwrites [of "''0.abc123xyz''" 1000 "Some ''a''" votingServer] i
  have 1: "snd (createLobby ''0.abc123xyz'' 1000 (Some ''a'') votingServer) = votingServer"
    by blast
  from createLobby_overwrites [of "''0.abc123xyz''" 9000 "Some ''mallory''" votingServer]
  have 2: "fst (createLobby ''0.abc123xyz'' 9000 (Some ''mallory'') votingServer) =
        LobbyCreated ''ABC123'' (newLobby ''ABC123'' ''mallory'' 9000)
     \<and> lobbies (snd (createLobby ''0.abc123xyz'' 9000 (Some ''mallory'') votingServer)) =
        (lobbies votingServer)(''ABC123'' \<mapsto> newLobby ''ABC123'' ''mallory'' 9000)"
    unfolding c by simp
  from i 1 2 l show ?thesis by simp
qed

section \<open>Restarting a game\<close>

lemma onRestartGame_object:
  assumes "lobbies s c = Some l" and "getGameState s c = Some (r, g)"
    and "sockets s sid = Some sock" and "sock_username sock = Some (host l)"
    and "gameImages s \<noteq> []"
  shows "getGameState (onRestartGame sid c s) c =
     Some (r, g\<lparr>phase := ''discussion'', roundNumber := 1, currentImage := None,
                votes := Map.empty, usedImages := [], timer := 60,
                voteResults := \<lparr>overrated = 0, fairlyRated = 0, underrated = 0\<rparr>,
                scores := resetScores (participants l) (scores g)\<rparr>)"
  using assms
  by (simp add: onRestartGame_def getGameState_def setObject_def clearInterval_def emit_def
      setTimeout_def Let_def split: option.splits)

lemma onRestartGame_timeouts:
  assumes "lobbies s c = Some l" and "getGameState s c = Some (r, g)"
    and "sockets s sid = Some sock" and "sock_username sock = Some (host l)"
    and "gameImages s \<noteq> []"
  shows "timeouts (onRestartGame sid c s) = timeouts s @ [(2000, CbStartDiscussionPhase c)]"
  using assms
  by (simp add: onRestartGame_def getGameState_def setObject_def clearInterval_def emit_def
      setTimeout_def Let_def split: option.splits)

lemma showScoreboard_emitted:
  assumes "getGameState s c = Some (r, g)"
  shows "emitted (showScoreboard c s) =
     emitted s @ [(Room c, GamePhaseUpdate ''scoreboard'' None),
                  (Room c, ScoreboardUpdate (scores g))]"
  using assms by (simp add: showScoreboard_def setObject_def emit_def setTimeout_def Let_def)

lemma endGame_emitted:
  assumes "getGameState s c = Some (r, g)"
  shows "emitted (endGame c s) = emitted s @ [(Room c, GameEnded (scores g))]"
  using assms by (simp add: endGame_def clearInterval_def emit_def split: option.splits)

text \<open>
  Claim C10. A restart by the host sets the score of every username in the participant
  list to 0 and leaves every other entry of the score table as it was (neither reset
  nor deleted); the next \<open>scoreboard-update\<close> and \<open>game-ended\<close> broadcasts carry the
  whole table, stale entries included.
\<close>

theorem onRestartGame_scores:
  assumes "lobbies s c = Some l" and "getGameState s c = Some (r, g)"
    and "sockets s sid = Some sock" and "sock_username sock = Some (host l)"
    and "gameImages s \<noteq> []"
  shows "\<exists>g'. getGameState (onRestartGame sid c s) c = Some (r, g')
     \<and> (\<forall>p \<in> set (participants l). scores g' (username p) = Some (Num 0))
     \<and> (\<forall>u. u \<notin> username ` set (participants l) \<longrightarrow> scores g' u = scores g u)
     \<and> last (emitted (showScoreboard c (onRestartGame sid c s))) =
           (Room c, ScoreboardUpdate (scores g'))
     \<and> last (emitted (endGame c (onRestartGame sid c s))) = (Room c, GameEnded (scores g'))"
proof -
  let ?g' = "g\<lparr>phase := ''discussion'', roundNumber := 1, currentImage := None,
                votes := Map.empty, usedImages := [], timer := 60,
                voteResults := \<lparr>overrated = 0, fairlyRated = 0, underrated = 0\<rparr>,
                scores := resetScores (participants l) (scores g)\<rparr>"
  have obj: "getGameState (onRestartGame sid c s) c = Some (r, ?g')"
    by (rule onRestartGame_object [OF assms])
  have sc: "scores ?g' u = (if u \<in> username ` set (participants l) then Some (Num 0)
                            else scores g u)" for u
    by (simp add: resetScores_apply)
  have "\<forall>p \<in> set (participants l). scores ?g' (username p) = Some (Num 0)"
    unfolding sc by simp
  moreover have "\<forall>u. u \<notin> username ` set (participants l) \<longrightarrow> scores ?g' u = scores g u"
    unfolding sc by simp
  moreover have "last (emitted (showScoreboard c (onRestartGame sid c s))) =
           (Room c, ScoreboardUpdate (scores ?g'))"
    by (simp add: showScoreboard_emitted [OF obj])
  moreover have "last (emitted (endGame c (onRestartGame sid c s))) =
           (Room c, GameEnded (scores ?g'))"
    by (simp add: endGame_emitted [OF obj])
  ultimately show ?thesis
    using obj by blast
qed

text \<open>Witness for C10: zed left the lobby long ago; the entry survives the restart.\<close>

theorem onRestartGame_scores_witness:
  "lobbies votingServer ''ABC123'' = Some exampleLobby
   \<and> getGameState votingServer ''ABC123'' = Some (0, votingState)
   \<and> sockets votingServer 1 = Some \<lparr>sock_username = Some ''alice'', sock_lobbyCode = Some ''ABC123''\<rparr>
   \<and> gameImages votingServer \<noteq> []
   \<and> ''zed'' \<notin> username ` set (participants exampleLobby)
   \<and> (\<exists>g'. getGameState (onRestartGame 1 ''ABC123'' votingServer) ''ABC123'' = Some (0, g')
         \<and> scores g' ''alice'' = Some (Num 0)
         \<and> scores g' ''zed'' = Some (Num 1)
         \<and> last (emitted (showScoreboard ''ABC123'' (onRestartGame 1 ''ABC123'' votingServer))) =
              (Room ''ABC123'', ScoreboardUpdate (scores g'))
         \<and> last (emitted (endGame ''ABC123'' (onRestartGame 1 ''ABC123'' votingServer))) =
              (Room ''ABC123'', GameEnded (scores g')))"
proof -
  have l: "lobbies votingServer ''ABC123'' = Some exampleLobby"
    and k: "sockets votingServer 1 = Some \<lparr>sock_username = Some ''alice'', sock_lobbyCode = Some ''ABC123''\<rparr>"
    and i: "gameImages votingServer \<noteq> []"
    by (simp_all add: votingServer_def)
  have g: "getGameState votingServer ''ABC123'' = Some (0, votingState)"
    by (simp add: getGameState_def votingServer_def)
  have h: "sock_username \<lparr>sock_username = Some ''alice'', sock_lobbyCode = Some ''ABC123''\<rparr>
             = Some (host exampleLobby)"
    by (simp add: exampleLobby_def)
  have z: "''zed'' \<notin> username ` set (participants exampleLobby)"
    and a: "\<lparr>username = ''alice'', isHost = True, connected = True\<rparr> \<in> set (participants exampleLobby)"
    by (simp_all add: exampleLobby_def)
  from onRestartGame_scores [OF l g k h i] obtain g'
    where o: "getGameState (onRestartGame 1 ''ABC123'' votingServer) ''ABC123'' = Some (0, g')"
      and p: "\<forall>p \<in> set (participants exampleLobby). scores g' (username p) = Some (Num 0)"
      and q: "\<forall>u. u \<notin> username ` set (participants exampleLobby) \<longrightarrow>
                scores g' u = scores votingState u"
      and e: "last (emitted (showScoreboard ''ABC123'' (onRestartGame 1 ''ABC123'' votingServer))) =
              (Room ''ABC123'', ScoreboardUpdate (scores g'))"
             "last (emitted (endGame ''ABC123'' (onRestartGame 1 ''ABC123'' votingServer))) =
              (Room ''ABC123'', GameEnded (scores g'))"
    by blast
  from p a have "scores g' ''alice'' = Some (Num 0)"
    by fastforce
  moreover from q z have "scores g' ''zed'' = Some (Num 1)"
    by (simp add: votingState_def)
  ultimately show ?thesis
    using l g k i z o e by blast
qed

end
